theory Spec2Isabelle
  imports Complex_Main "HOL-Library.Multiset"
begin

section \<open>The document store of server.js\<close>

text \<open>
  The server keeps its data in the MongoDB collections \<open>parking_areas\<close>, \<open>slots\<close>,
  \<open>bookings\<close> and \<open>register_login\<close>. A collection is a list of documents in natural
  (insertion) order: \<open>findOne\<close> and \<open>updateOne\<close> act on the first document that matches
  the filter. An \<open>ObjectId\<close> is a natural number; the store hands out \<open>next_oid\<close> at each
  insert. A \<open>Date\<close> is the number of milliseconds it holds; the reading of the clock
  (\<open>new Date()\<close>) is an argument \<open>now\<close> of every operation.

  The request bodies are the typed fields the handlers destructure from \<open>req.body\<close>. Bodies
  with a missing field or a malformed id, which make a handler throw into its \<open>catch\<close>
  block (status 500), are outside the model, as is a store that cannot be reached. One
  store call fails on well-formed requests and is in the model: \<open>insertMany\<close> rejects an
  empty batch, and the handler then answers from its \<open>catch\<close> block with the writes it
  has made so far left in the store.
\<close>

type_synonym oid = nat
type_synonym date = int

record geo =
  lat :: real
  lng :: real

record parking_area =
  area_oid :: oid
  name :: string
  location :: geo
  total_car_slots :: int
  available_car_slots :: int
  booked_car_slots :: int
  total_bike_slots :: int
  available_bike_slots :: int
  booked_bike_slots :: int
  area_createdAt :: "date option"
  area_updatedAt :: "date option"

datatype slot_status = Available | Booked

record slot =
  slot_oid :: oid
  parking_id :: oid
  slot_number :: nat
  vehicle_type :: string
  status :: slot_status
  current_booking_id :: "oid option"

datatype booking_status = Active | Completed

record booking =
  booking_oid :: oid
  b_parking_id :: oid
  b_slot_id :: oid
  b_vehicle_type :: string
  number_plate :: string
  phone :: string
  entry_time :: date
  b_status :: booking_status
  b_createdAt :: date
  exit_time :: "date option"
  amount :: "int option"
  b_updatedAt :: "date option"

record owner =
  o_phone :: string
  o_parking_area_name :: string
  o_password :: string
  o_updatedAt :: "date option"

record state =
  parking_areas :: "parking_area list"
  slots :: "slot list"
  bookings :: "booking list"
  register_login :: "owner list"
  next_oid :: oid

subsection \<open>The driver calls the handlers use\<close>

definition findOne :: "('a \<Rightarrow> bool) \<Rightarrow> 'a list \<Rightarrow> 'a option" where
  "findOne P xs = find P xs"

fun updateOne :: "('a \<Rightarrow> bool) \<Rightarrow> ('a \<Rightarrow> 'a) \<Rightarrow> 'a list \<Rightarrow> 'a list" where
  "updateOne P f [] = []"
| "updateOne P f (x # xs) = (if P x then f x # xs else x # updateOne P f xs)"

definition matchedCount :: "('a \<Rightarrow> bool) \<Rightarrow> 'a list \<Rightarrow> nat" where
  "matchedCount P xs = (case find P xs of None \<Rightarrow> 0 | Some _ \<Rightarrow> 1)"

definition deleteMany :: "('a \<Rightarrow> bool) \<Rightarrow> 'a list \<Rightarrow> 'a list" where
  "deleteMany P xs = filter (\<lambda>x. \<not> P x) xs"

text \<open>
  A document handed to \<open>insertOne\<close> or \<open>insertMany\<close> has no \<open>_id\<close> yet: it is a function
  of the id the store gives it. \<open>assign_ids n docs\<close> numbers the documents from \<open>n\<close> on.
\<close>

fun assign_ids :: "oid \<Rightarrow> (oid \<Rightarrow> 'a) list \<Rightarrow> 'a list" where
  "assign_ids n [] = []"
| "assign_ids n (d # ds) = d n # assign_ids (Suc n) ds"

subsection \<open>Strings\<close>

text \<open>
  \<open>String.prototype.toLowerCase\<close> on the ASCII letters; the other bytes stay as they are.
  No character outside ASCII lower-cases to \<open>c\<close>, \<open>a\<close> or \<open>r\<close>, so the test against
  \<open>''car''\<close> below decides as the source's does.
\<close>

definition lower_char :: "char \<Rightarrow> char" where
  "lower_char c =
     (let n = (of_char c :: nat) in if 65 \<le> n \<and> n \<le> 90 then char_of (n + 32) else c)"

definition toLowerCase :: "string \<Rightarrow> string" where
  "toLowerCase s = map lower_char s"

section \<open>The handlers\<close>

text \<open>
  The answers that are not a success: the two status-400 answers \<open>Slot not available\<close> and
  \<open>No active booking found\<close>, and the status-500 answer \<open>Server error\<close> of a \<open>catch\<close>
  block.
\<close>

datatype error = SlotUnavailable | NoActiveBooking | ServerError

subsection \<open>POST /api/bookings and POST /api/owner/bookings\<close>

record booking_req =
  rq_parking_id :: oid
  rq_slot_id :: oid
  rq_vehicle_type :: string
  rq_number_plate :: string
  rq_entry_time :: date
  rq_phone :: string

text \<open>The \<open>$inc\<close> updates of the counters of one vehicle type.\<close>

definition inc_car :: "int \<Rightarrow> int \<Rightarrow> parking_area \<Rightarrow> parking_area" where
  "inc_car da db a =
     a\<lparr>available_car_slots := available_car_slots a + da,
       booked_car_slots := booked_car_slots a + db\<rparr>"

definition inc_bike :: "int \<Rightarrow> int \<Rightarrow> parking_area \<Rightarrow> parking_area" where
  "inc_bike da db a =
     a\<lparr>available_bike_slots := available_bike_slots a + da,
       booked_bike_slots := booked_bike_slots a + db\<rparr>"

definition new_booking :: "booking_req \<Rightarrow> date \<Rightarrow> oid \<Rightarrow> booking" where
  "new_booking req now i =
     \<lparr>booking_oid = i,
      b_parking_id = rq_parking_id req,
      b_slot_id = rq_slot_id req,
      b_vehicle_type = toLowerCase (rq_vehicle_type req),
      number_plate = rq_number_plate req,
      phone = rq_phone req,
      entry_time = rq_entry_time req,
      b_status = Active,
      b_createdAt = now,
      exit_time = None,
      amount = None,
      b_updatedAt = None\<rparr>"

text \<open>
  The two booking handlers (user app and owner app) have the same body. The response is
  the pair of \<open>booking_id\<close> and \<open>slot_number\<close>, or the status-400 answer
  \<open>Slot not available\<close>.
\<close>

definition reserve_slot ::
  "booking_req \<Rightarrow> date \<Rightarrow> state \<Rightarrow> (error + oid \<times> nat) \<times> state" where
  "reserve_slot req now s =
     (case findOne (\<lambda>sl. slot_oid sl = rq_slot_id req) (slots s) of
        None \<Rightarrow> (Inl SlotUnavailable, s)
      | Some sl \<Rightarrow>
          if status sl \<noteq> Available then (Inl SlotUnavailable, s)
          else
            let insertedId = next_oid s;
                s1 = s\<lparr>bookings := bookings s @ [new_booking req now insertedId],
                       next_oid := Suc insertedId\<rparr>;
                s2 = s1\<lparr>slots :=
                       updateOne (\<lambda>x. slot_oid x = rq_slot_id req)
                         (\<lambda>x. x\<lparr>status := Booked, current_booking_id := Some insertedId\<rparr>)
                         (slots s1)\<rparr>;
                updateField =
                  (if toLowerCase (rq_vehicle_type req) = ''car''
                   then inc_car (- 1) 1 else inc_bike (- 1) 1);
                s3 = s2\<lparr>parking_areas :=
                       updateOne (\<lambda>a. area_oid a = rq_parking_id req) updateField
                         (parking_areas s2)\<rparr>
            in (Inr (insertedId, slot_number sl), s3))"

subsection \<open>POST /api/owner/bookings/complete\<close>

record complete_req =
  cq_slot_id :: oid
  cq_parking_id :: oid
  cq_vehicle_type :: string
  cq_exit_time :: date
  cq_amount :: int

definition is_active_on :: "oid \<Rightarrow> booking \<Rightarrow> bool" where
  "is_active_on sid b = (b_slot_id b = sid \<and> b_status b = Active)"

definition complete_booking ::
  "complete_req \<Rightarrow> date \<Rightarrow> state \<Rightarrow> (error + unit) \<times> state" where
  "complete_booking req now s =
     (let matched = matchedCount (is_active_on (cq_slot_id req)) (bookings s);
          s1 = s\<lparr>bookings :=
                 updateOne (is_active_on (cq_slot_id req))
                   (\<lambda>b. b\<lparr>b_status := Completed,
                           exit_time := Some (cq_exit_time req),
                           amount := Some (cq_amount req),
                           b_updatedAt := Some now\<rparr>)
                   (bookings s)\<rparr>
      in if matched = 0 then (Inl NoActiveBooking, s1)
         else
           let s2 = s1\<lparr>slots :=
                      updateOne (\<lambda>x. slot_oid x = cq_slot_id req)
                        (\<lambda>x. x\<lparr>status := Available, current_booking_id := None\<rparr>)
                        (slots s1)\<rparr>;
               updateField =
                 (if toLowerCase (cq_vehicle_type req) = ''car''
                  then inc_car 1 (- 1) else inc_bike 1 (- 1));
               s3 = s2\<lparr>parking_areas :=
                      updateOne (\<lambda>a. area_oid a = cq_parking_id req) updateField
                        (parking_areas s2)\<rparr>
           in (Inr (), s3))"

subsection \<open>POST /api/owner/parking_areas\<close>

record area_req =
  aq_name :: string
  aq_parking_area_name :: string
  aq_location :: geo
  aq_total_car_slots :: int
  aq_total_bike_slots :: int

datatype area_response = AreaUpdated | AreaCreated oid

text \<open>
  \<open>Array.from({ length: n }, (_, i) => ...)\<close> runs \<open>i\<close> over \<open>0, ..., n - 1\<close>; a negative
  length gives the empty array.
\<close>

definition new_slot :: "oid \<Rightarrow> string \<Rightarrow> nat \<Rightarrow> oid \<Rightarrow> slot" where
  "new_slot pid vt i ident =
     \<lparr>slot_oid = ident, parking_id = pid, slot_number = i + 1, vehicle_type = vt,
      status = Available, current_booking_id = None\<rparr>"

definition new_slots :: "oid \<Rightarrow> string \<Rightarrow> int \<Rightarrow> (oid \<Rightarrow> slot) list" where
  "new_slots pid vt n = map (new_slot pid vt) [0..<nat n]"

text \<open>
  The driver's \<open>insertMany\<close> rejects an empty array (\<open>Invalid BulkOperation, Batch cannot
  be empty\<close>) and writes nothing; any other batch is appended under new ids.
\<close>

definition insertMany_slots :: "(oid \<Rightarrow> slot) list \<Rightarrow> state \<Rightarrow> error + state" where
  "insertMany_slots docs s =
     (case docs of
        [] \<Rightarrow> Inl ServerError
      | _ # _ \<Rightarrow>
          Inr (s\<lparr>slots := slots s @ assign_ids (next_oid s) docs,
                 next_oid := next_oid s + length docs\<rparr>))"

definition set_owner_area :: "area_req \<Rightarrow> date \<Rightarrow> state \<Rightarrow> state" where
  "set_owner_area req now s =
     s\<lparr>register_login :=
         updateOne (\<lambda>u. o_phone u = aq_name req)
           (\<lambda>u. u\<lparr>o_parking_area_name := aq_parking_area_name req, o_updatedAt := Some now\<rparr>)
           (register_login s)\<rparr>"

text \<open>
  The handler has no transaction: when \<open>insertMany\<close> throws, the totals are already
  written and the old slots deleted (resize), or the area is already inserted (create),
  and the writes after it are not made.
\<close>

definition create_or_resize_area ::
  "area_req \<Rightarrow> date \<Rightarrow> state \<Rightarrow> (error + area_response) \<times> state" where
  "create_or_resize_area req now s =
     (case findOne (\<lambda>a. name a = aq_parking_area_name req) (parking_areas s) of
        Some existingArea \<Rightarrow>
          let carSlotsChanged = (aq_total_car_slots req \<noteq> total_car_slots existingArea);
              bikeSlotsChanged = (aq_total_bike_slots req \<noteq> total_bike_slots existingArea);
              s1 = s\<lparr>parking_areas :=
                     updateOne (\<lambda>a. name a = aq_parking_area_name req)
                       (\<lambda>a. a\<lparr>location := aq_location req,
                               total_car_slots := aq_total_car_slots req,
                               total_bike_slots := aq_total_bike_slots req,
                               area_updatedAt := Some now\<rparr>)
                       (parking_areas s)\<rparr>;
              s2 = set_owner_area req now s1
          in if carSlotsChanged \<or> bikeSlotsChanged then
               let parkingId = area_oid existingArea;
                   s3 = s2\<lparr>slots := deleteMany (\<lambda>x. parking_id x = parkingId) (slots s2)\<rparr>
               in (case insertMany_slots
                          (new_slots parkingId ''car'' (aq_total_car_slots req) @
                           new_slots parkingId ''bike'' (aq_total_bike_slots req)) s3 of
                     Inl e \<Rightarrow> (Inl e, s3)
                   | Inr s4 \<Rightarrow>
                       let s5 = s4\<lparr>parking_areas :=
                                  updateOne (\<lambda>a. area_oid a = parkingId)
                                    (\<lambda>a. a\<lparr>available_car_slots := aq_total_car_slots req,
                                            booked_car_slots := 0,
                                            available_bike_slots := aq_total_bike_slots req,
                                            booked_bike_slots := 0\<rparr>)
                                    (parking_areas s4)\<rparr>
                       in (Inr AreaUpdated, s5))
             else (Inr AreaUpdated, s2)
      | None \<Rightarrow>
          let insertedId = next_oid s;
              parkingArea =
                \<lparr>area_oid = insertedId,
                 name = aq_parking_area_name req,
                 location = aq_location req,
                 total_car_slots = aq_total_car_slots req,
                 available_car_slots = aq_total_car_slots req,
                 booked_car_slots = 0,
                 total_bike_slots = aq_total_bike_slots req,
                 available_bike_slots = aq_total_bike_slots req,
                 booked_bike_slots = 0,
                 area_createdAt = Some now,
                 area_updatedAt = None\<rparr>;
              s1 = s\<lparr>parking_areas := parking_areas s @ [parkingArea],
                     next_oid := Suc insertedId\<rparr>;
              s2 = set_owner_area req now s1
          in (case insertMany_slots
                     (new_slots insertedId ''car'' (aq_total_car_slots req) @
                      new_slots insertedId ''bike'' (aq_total_bike_slots req)) s2 of
                Inl e \<Rightarrow> (Inl e, s2)
              | Inr s3 \<Rightarrow> (Inr (AreaCreated insertedId), s3)))"

subsection \<open>GET /api/users/bookings/:phone\<close>

text \<open>
  The handler answers with each booking spread into a new object (\<open>...booking\<close>), to
  which it adds \<open>location\<close> and \<open>slot_number\<close>. \<open>slot_number\<close> is the slot's number or the
  string \<open>Unknown Slot\<close>. \<open>sort({ entry_time: -1 })\<close> is a sort on the negated entry time;
  the order among equal entry times is the store's choice, here that of \<open>sort_key\<close>.
\<close>

datatype slot_label = SlotNumber nat | SlotText string

record populated_booking = booking +
  pb_location :: string
  pb_slot_number :: slot_label

definition populate :: "state \<Rightarrow> booking \<Rightarrow> populated_booking" where
  "populate s b =
     (let parkingArea = findOne (\<lambda>a. area_oid a = b_parking_id b) (parking_areas s);
          slot = findOne (\<lambda>x. slot_oid x = b_slot_id b) (slots s)
      in booking.extend b
           (populated_booking.fields
              (case parkingArea of Some a \<Rightarrow> name a | None \<Rightarrow> ''Unknown Location'')
              (case slot of Some x \<Rightarrow> SlotNumber (slot_number x)
                          | None \<Rightarrow> SlotText ''Unknown Slot'')))"

definition list_user_bookings :: "string \<Rightarrow> state \<Rightarrow> populated_booking list" where
  "list_user_bookings ph s =
     map (populate s)
       (sort_key (\<lambda>b. - entry_time b) (filter (\<lambda>b. phone b = ph) (bookings s)))"

section \<open>Reading the store\<close>

definition lookup_area :: "oid \<Rightarrow> state \<Rightarrow> parking_area option" where
  "lookup_area i s = findOne (\<lambda>a. area_oid a = i) (parking_areas s)"

definition lookup_slot :: "oid \<Rightarrow> state \<Rightarrow> slot option" where
  "lookup_slot i s = findOne (\<lambda>x. slot_oid x = i) (slots s)"

definition slots_of :: "oid \<Rightarrow> string \<Rightarrow> state \<Rightarrow> slot list" where
  "slots_of i vt s = filter (\<lambda>x. parking_id x = i \<and> vehicle_type x = vt) (slots s)"

text \<open>
  The store keeps \<open>_id\<close> unique within a collection, and an id it hands out is new.
\<close>

definition wf_state :: "state \<Rightarrow> bool" where
  "wf_state s =
     (distinct (map area_oid (parking_areas s)) \<and>
      distinct (map slot_oid (slots s)) \<and>
      distinct (map booking_oid (bookings s)) \<and>
      list_all (\<lambda>a. area_oid a < next_oid s) (parking_areas s) \<and>
      list_all (\<lambda>x. slot_oid x < next_oid s) (slots s) \<and>
      list_all (\<lambda>b. booking_oid b < next_oid s) (bookings s))"

definition ids_ok :: "oid \<Rightarrow> oid list \<Rightarrow> bool" where
  "ids_ok n is = (distinct is \<and> (\<forall>i\<in>set is. i < n))"

text \<open>The counters of one area agree with its totals, for both vehicle types.\<close>

definition counters_consistent :: "parking_area \<Rightarrow> bool" where
  "counters_consistent a =
     (available_car_slots a + booked_car_slots a = total_car_slots a \<and>
      available_bike_slots a + booked_bike_slots a = total_bike_slots a)"

datatype command =
    CreateOrResizeArea area_req
  | ReserveSlot booking_req
  | CompleteBooking complete_req

fun run_command :: "command \<Rightarrow> date \<Rightarrow> state \<Rightarrow> state" where
  "run_command (CreateOrResizeArea req) now s = snd (create_or_resize_area req now s)"
| "run_command (ReserveSlot req) now s = snd (reserve_slot req now s)"
| "run_command (CompleteBooking req) now s = snd (complete_booking req now s)"

text \<open>Requests served one after another, each at its own reading of the clock.\<close>

fun run_commands :: "(command \<times> date) list \<Rightarrow> state \<Rightarrow> state" where
  "run_commands [] s = s"
| "run_commands ((c, now) # cs) s = run_commands cs (run_command c now s)"

section \<open>Requests in flight together\<close>

text \<open>
  A handler is an \<open>async\<close> function: it runs alone up to each \<open>await\<close> of a store call,
  and the store calls of the requests in flight take effect one at a time, in any order.
  A booking request in flight is at one of the four store calls of its handler, or has
  sent its response; \<open>reserve_step\<close> performs the store call it waits for and runs the
  handler up to the next one.
\<close>

datatype reserve_task =
    AtFindOne
  | AtInsertOne slot
  | AtUpdateSlot slot oid
  | AtUpdateArea slot oid
  | Responded "error + oid \<times> nat"

fun reserve_step ::
  "booking_req \<Rightarrow> date \<Rightarrow> reserve_task \<Rightarrow> state \<Rightarrow> reserve_task \<times> state" where
  "reserve_step req now AtFindOne s =
     (case findOne (\<lambda>sl. slot_oid sl = rq_slot_id req) (slots s) of
        None \<Rightarrow> (Responded (Inl SlotUnavailable), s)
      | Some sl \<Rightarrow>
          if status sl \<noteq> Available then (Responded (Inl SlotUnavailable), s)
          else (AtInsertOne sl, s))"
| "reserve_step req now (AtInsertOne sl) s =
     (let insertedId = next_oid s
      in (AtUpdateSlot sl insertedId,
          s\<lparr>bookings := bookings s @ [new_booking req now insertedId],
            next_oid := Suc insertedId\<rparr>))"
| "reserve_step req now (AtUpdateSlot sl insertedId) s =
     (AtUpdateArea sl insertedId,
      s\<lparr>slots :=
          updateOne (\<lambda>x. slot_oid x = rq_slot_id req)
            (\<lambda>x. x\<lparr>status := Booked, current_booking_id := Some insertedId\<rparr>)
            (slots s)\<rparr>)"
| "reserve_step req now (AtUpdateArea sl insertedId) s =
     (Responded (Inr (insertedId, slot_number sl)),
      s\<lparr>parking_areas :=
          updateOne (\<lambda>a. area_oid a = rq_parking_id req)
            (if toLowerCase (rq_vehicle_type req) = ''car''
             then inc_car (- 1) 1 else inc_bike (- 1) 1)
            (parking_areas s)\<rparr>)"
| "reserve_step req now (Responded r) s = (Responded r, s)"

text \<open>
  A schedule names, step by step, the request whose store call takes effect next.
\<close>

type_synonym in_flight = "booking_req \<times> date \<times> reserve_task"

fun run_schedule :: "nat list \<Rightarrow> in_flight list \<Rightarrow> state \<Rightarrow> in_flight list \<times> state" where
  "run_schedule [] ts s = (ts, s)"
| "run_schedule (i # sched) ts s =
     (if i < length ts then
        (case ts ! i of (req, now, t) \<Rightarrow>
           (case reserve_step req now t s of (t', s') \<Rightarrow>
              run_schedule sched (ts[i := (req, now, t')]) s'))
      else run_schedule sched ts s)"

definition responses :: "in_flight list \<Rightarrow> reserve_task list" where
  "responses ts = map (\<lambda>(req, now, t). t) ts"

section \<open>A small store\<close>

text \<open>
  The area \<open>Mall A\<close> with two car slots and one bike slot, as the handler for
  \<open>/api/owner/parking_areas\<close> creates it in an empty store.
\<close>

definition empty_state :: state where
  "empty_state =
     \<lparr>parking_areas = [], slots = [], bookings = [], register_login = [], next_oid = 0\<rparr>"

definition mall_req :: area_req where
  "mall_req =
     \<lparr>aq_name = ''9876543210'', aq_parking_area_name = ''Mall A'',
      aq_location = \<lparr>lat = 0, lng = 0\<rparr>, aq_total_car_slots = 2, aq_total_bike_slots = 1\<rparr>"

definition mall_area :: parking_area where
  "mall_area =
     \<lparr>area_oid = 0, name = ''Mall A'', location = \<lparr>lat = 0, lng = 0\<rparr>,
      total_car_slots = 2, available_car_slots = 2, booked_car_slots = 0,
      total_bike_slots = 1, available_bike_slots = 1, booked_bike_slots = 0,
      area_createdAt = Some 0, area_updatedAt = None\<rparr>"

definition mall_slots :: "slot list" where
  "mall_slots =
     [\<lparr>slot_oid = 1, parking_id = 0, slot_number = 1, vehicle_type = ''car'',
       status = Available, current_booking_id = None\<rparr>,
      \<lparr>slot_oid = 2, parking_id = 0, slot_number = 2, vehicle_type = ''car'',
       status = Available, current_booking_id = None\<rparr>,
      \<lparr>slot_oid = 3, parking_id = 0, slot_number = 1, vehicle_type = ''bike'',
       status = Available, current_booking_id = None\<rparr>]"

definition mall_state :: state where
  "mall_state =
     \<lparr>parking_areas = [mall_area], slots = mall_slots, bookings = [],
      register_login = [], next_oid = 4\<rparr>"

text \<open>A request for car slot number 1 of \<open>Mall A\<close>, and the request that completes it.\<close>

definition car_req :: booking_req where
  "car_req =
     \<lparr>rq_parking_id = 0, rq_slot_id = 1, rq_vehicle_type = ''Car'',
      rq_number_plate = ''KL01AB1234'', rq_entry_time = 1000, rq_phone = ''5550001''\<rparr>"

definition car_done :: complete_req where
  "car_done =
     \<lparr>cq_slot_id = 1, cq_parking_id = 0, cq_vehicle_type = ''car'',
      cq_exit_time = 2000, cq_amount = 50\<rparr>"

text \<open>The store after car slot 1 has been booked and the booking completed.\<close>

definition car_completed_state :: state where
  "car_completed_state =
     snd (complete_booking car_done 9 (snd (reserve_slot car_req 7 mall_state)))"

text \<open>
  A second area, \<open>Plaza B\<close>, with one car slot, created after \<open>Mall A\<close>.
\<close>

definition plaza_req :: area_req where
  "plaza_req =
     \<lparr>aq_name = ''9123456780'', aq_parking_area_name = ''Plaza B'',
      aq_location = \<lparr>lat = 1, lng = 1\<rparr>, aq_total_car_slots = 1, aq_total_bike_slots = 0\<rparr>"

definition plaza_area :: parking_area where
  "plaza_area =
     \<lparr>area_oid = 4, name = ''Plaza B'', location = \<lparr>lat = 1, lng = 1\<rparr>,
      total_car_slots = 1, available_car_slots = 1, booked_car_slots = 0,
      total_bike_slots = 0, available_bike_slots = 0, booked_bike_slots = 0,
      area_createdAt = Some 1, area_updatedAt = None\<rparr>"

definition two_area_state :: state where
  "two_area_state =
     \<lparr>parking_areas = [mall_area, plaza_area],
      slots = mall_slots @
        [\<lparr>slot_oid = 5, parking_id = 4, slot_number = 1, vehicle_type = ''car'',
          status = Available, current_booking_id = None\<rparr>],
      bookings = [], register_login = [], next_oid = 6\<rparr>"

text \<open>
  Requests whose area id or vehicle type is not that of the slot they name: car slot 1 of
  \<open>Mall A\<close> booked as a bike of \<open>Plaza B\<close>; a bike booking completed as a car; a car
  booking completed as a bike.
\<close>

definition stray_req :: booking_req where
  "stray_req = car_req\<lparr>rq_parking_id := 4, rq_vehicle_type := ''bike''\<rparr>"

definition bike_req :: booking_req where
  "bike_req =
     \<lparr>rq_parking_id = 0, rq_slot_id = 3, rq_vehicle_type = ''bike'',
      rq_number_plate = ''KL07CD4321'', rq_entry_time = 1500, rq_phone = ''5550002''\<rparr>"

definition bike_booked_state :: state where
  "bike_booked_state = snd (reserve_slot bike_req 7 mall_state)"

definition bike_done_as_car :: complete_req where
  "bike_done_as_car =
     \<lparr>cq_slot_id = 3, cq_parking_id = 0, cq_vehicle_type = ''car'',
      cq_exit_time = 2500, cq_amount = 20\<rparr>"

definition car_done_as_bike :: complete_req where
  "car_done_as_bike =
     \<lparr>cq_slot_id = 1, cq_parking_id = 0, cq_vehicle_type = ''bike'',
      cq_exit_time = 2000, cq_amount = 50\<rparr>"

text \<open>
  \<open>Mall A\<close> with its bike slot booked, and a request that resizes it to one car slot
  and two bike slots.
\<close>

definition bike_booked_area :: parking_area where
  "bike_booked_area = mall_area\<lparr>available_bike_slots := 0, booked_bike_slots := 1\<rparr>"

definition mall_resize :: area_req where
  "mall_resize = mall_req\<lparr>aq_total_car_slots := 1, aq_total_bike_slots := 2\<rparr>"

text \<open>
  A history of one user: car slot 1 is booked, \<open>Mall A\<close> is resized, and the new car
  slot is booked by the same user at a later entry time.
\<close>

definition later_req :: booking_req where
  "later_req = car_req\<lparr>rq_slot_id := 5, rq_entry_time := 3000\<rparr>"

definition history_state :: state where
  "history_state =
     snd (reserve_slot later_req 30
       (snd (create_or_resize_area mall_resize 20 (snd (reserve_slot car_req 7 mall_state)))))"

text \<open>
  Two booking requests for car slot 1 in flight together, and a schedule in which both
  read the slot before either writes.
\<close>

definition rival_req :: booking_req where
  "rival_req = car_req\<lparr>rq_number_plate := ''KL02ZZ0002'', rq_phone := ''5550003''\<rparr>"

definition both_in_flight :: "in_flight list" where
  "both_in_flight = [(car_req, 7, AtFindOne), (rival_req, 8, AtFindOne)]"

definition racing_schedule :: "nat list" where
  "racing_schedule = [0, 1, 0, 0, 0, 1, 1, 1]"

text \<open>
  Requests that resize \<open>Mall A\<close> to no slot at all, and to a negative number of car
  slots.
\<close>

definition mall_close :: area_req where
  "mall_close = mall_req\<lparr>aq_total_car_slots := 0, aq_total_bike_slots := 0\<rparr>"

definition mall_negative :: area_req where
  "mall_negative = mall_req\<lparr>aq_total_car_slots := - 1, aq_total_bike_slots := 1\<rparr>"

text \<open>Bike slot 3 of \<open>Mall A\<close> booked as a car of \<open>Plaza B\<close>.\<close>

definition stray_car_req :: booking_req where
  "stray_car_req = bike_req\<lparr>rq_parking_id := 4, rq_vehicle_type := ''CAR''\<rparr>"

text \<open>The four counters of an area, to compare them at a glance.\<close>

definition counters :: "parking_area \<Rightarrow> int \<times> int \<times> int \<times> int" where
  "counters a =
     (available_car_slots a, booked_car_slots a, available_bike_slots a, booked_bike_slots a)"

definition totals :: "parking_area \<Rightarrow> int \<times> int" where
  "totals a = (total_car_slots a, total_bike_slots a)"

section \<open>Facts about the driver calls\<close>

lemma updateOne_no_match: "find P xs = None \<Longrightarrow> updateOne P f xs = xs"
  by (induction xs) (auto split: if_splits)

lemma find_updateOne_same:
  "(\<And>x. P x \<Longrightarrow> P (f x)) \<Longrightarrow> find P (updateOne P f xs) = map_option f (find P xs)"
  by (induction xs) auto

lemma find_updateOne_other:
  "(\<And>x. P x \<Longrightarrow> \<not> Q x \<and> \<not> Q (f x)) \<Longrightarrow> find Q (updateOne P f xs) = find Q xs"
  by (induction xs) auto

lemma updateOne_undo:
  "(\<And>x. P x \<Longrightarrow> P (f x)) \<Longrightarrow> (\<And>x. P x \<Longrightarrow> g (f x) = x) \<Longrightarrow>
   updateOne P g (updateOne P f xs) = xs"
  by (induction xs) auto

lemma list_all_updateOne:
  "list_all Q xs \<Longrightarrow> (\<And>x. P x \<Longrightarrow> Q x \<Longrightarrow> Q (f x)) \<Longrightarrow> list_all Q (updateOne P f xs)"
  by (induction xs) auto

lemma updateOne_found:
  "find P xs = Some a \<Longrightarrow> updateOne P f xs = updateOne P (\<lambda>_. f a) xs"
  by (induction xs) (auto split: if_splits)

lemma map_updateOne_key:
  "(\<And>x. k (f x) = k x) \<Longrightarrow> map k (updateOne P f xs) = map k xs"
  by (induction xs) auto

text \<open>
  With unique ids, an update by the id of the document a filter found first reaches the
  document the update by that filter reached.
\<close>

lemma updateOne_by_key_after:
  "distinct (map k xs) \<Longrightarrow> find P xs = Some a \<Longrightarrow> (\<And>x. k (f x) = k x) \<Longrightarrow>
   updateOne (\<lambda>x. k x = k a) g (updateOne P f xs) = updateOne P (\<lambda>x. g (f x)) xs"
proof (induction xs)
  case Nil
  then show ?case by simp
next
  case (Cons x xs)
  show ?case
  proof (cases "P x")
    case True
    with Cons.prems show ?thesis by simp
  next
    case False
    with Cons.prems have a: "find P xs = Some a" by simp
    then have "a \<in> set xs" by (auto simp: find_Some_iff)
    with Cons.prems(1) have "k x \<noteq> k a" by auto
    with False Cons.IH [OF _ a Cons.prems(3)] Cons.prems(1) show ?thesis by simp
  qed
qed

lemma inc_car_oid [simp]: "area_oid (inc_car x y a) = area_oid a"
  by (simp add: inc_car_def)

lemma inc_bike_oid [simp]: "area_oid (inc_bike x y a) = area_oid a"
  by (simp add: inc_bike_def)

lemma inc_car_undo [simp]: "inc_car 1 (- 1) (inc_car (- 1) 1 a) = a"
  by (simp add: inc_car_def)

lemma inc_bike_undo [simp]: "inc_bike 1 (- 1) (inc_bike (- 1) 1 a) = a"
  by (simp add: inc_bike_def)

lemma parking_areas_set_owner_area [simp]:
  "parking_areas (set_owner_area req now s) = parking_areas s"
  by (simp add: set_owner_area_def)

lemma insertMany_slots_empty [simp]: "insertMany_slots [] s = Inl ServerError"
  by (simp add: insertMany_slots_def)

lemma insertMany_slots_batch:
  "docs \<noteq> [] \<Longrightarrow>
   insertMany_slots docs s =
     Inr (s\<lparr>slots := slots s @ assign_ids (next_oid s) docs,
            next_oid := next_oid s + length docs\<rparr>)"
  by (cases docs) (simp_all add: insertMany_slots_def)

lemma batch_empty_iff:
  "new_slots p vt k @ new_slots p' vt' k' = [] \<longleftrightarrow> k \<le> 0 \<and> k' \<le> 0"
  by (auto simp: new_slots_def)

lemma assign_ids_append:
  "assign_ids n (xs @ ys) = assign_ids n xs @ assign_ids (n + length xs) ys"
  by (induction xs arbitrary: n) auto

lemma length_assign_ids [simp]: "length (assign_ids n ds) = length ds"
  by (induction ds arbitrary: n) auto

lemma length_new_slots [simp]: "length (new_slots p vt k) = nat k"
  by (simp add: new_slots_def)

lemma lower_CAR [simp]: "toLowerCase ''CAR'' = ''car''"
  by code_simp

lemma lower_Car [simp]: "toLowerCase ''Car'' = ''car''"
  by code_simp

lemma lower_car [simp]: "toLowerCase ''car'' = ''car''"
  by code_simp

lemma lower_bike [simp]: "toLowerCase ''bike'' = ''bike''"
  by code_simp

text \<open>The small store is the one the handler builds.\<close>

lemma mall_state_created:
  "create_or_resize_area mall_req 0 empty_state = (Inr (AreaCreated 0), mall_state)"
  by (simp add: create_or_resize_area_def empty_state_def mall_req_def mall_state_def
      mall_area_def mall_slots_def findOne_def set_owner_area_def insertMany_slots_def
      new_slots_def new_slot_def Let_def upt_rec)

lemma bike_booked_state_eq:
  "bike_booked_state =
     \<lparr>parking_areas = [mall_area\<lparr>available_bike_slots := 0, booked_bike_slots := 1\<rparr>],
      slots = [mall_slots ! 0, mall_slots ! 1,
               (mall_slots ! 2)\<lparr>status := Booked, current_booking_id := Some 4\<rparr>],
      bookings = [new_booking bike_req 7 4], register_login = [], next_oid = 5\<rparr>"
  by (simp add: bike_booked_state_def reserve_slot_def bike_req_def mall_state_def mall_slots_def
      mall_area_def findOne_def Let_def inc_bike_def)

section \<open>The counters agree with the totals\<close>

lemma inc_car_consistent: "counters_consistent a \<Longrightarrow> counters_consistent (inc_car d (- d) a)"
  by (simp add: counters_consistent_def inc_car_def)

lemma inc_bike_consistent: "counters_consistent a \<Longrightarrow> counters_consistent (inc_bike d (- d) a)"
  by (simp add: counters_consistent_def inc_bike_def)

lemma reserve_consistent:
  "list_all counters_consistent (parking_areas s) \<Longrightarrow>
   list_all counters_consistent (parking_areas (snd (reserve_slot req now s)))"
  using inc_car_consistent [of _ "- 1"] inc_bike_consistent [of _ "- 1"]
  by (auto simp: reserve_slot_def Let_def split: option.splits intro!: list_all_updateOne)

lemma complete_consistent:
  "list_all counters_consistent (parking_areas s) \<Longrightarrow>
   list_all counters_consistent (parking_areas (snd (complete_booking req now s)))"
  using inc_car_consistent [of _ 1] inc_bike_consistent [of _ 1]
  by (auto simp: complete_booking_def Let_def split: option.splits intro!: list_all_updateOne)

text \<open>
  What the handler for \<open>/api/owner/parking_areas\<close> does in each of its cases. A batch is
  empty when neither total is positive.
\<close>

lemma area_created:
  assumes "findOne (\<lambda>a. name a = aq_parking_area_name req) (parking_areas s) = None"
    and "0 < aq_total_car_slots req \<or> 0 < aq_total_bike_slots req"
  shows "create_or_resize_area req now s =
     (Inr (AreaCreated (next_oid s)),
      s\<lparr>parking_areas := parking_areas s @
           [\<lparr>area_oid = next_oid s, name = aq_parking_area_name req,
             location = aq_location req,
             total_car_slots = aq_total_car_slots req,
             available_car_slots = aq_total_car_slots req, booked_car_slots = 0,
             total_bike_slots = aq_total_bike_slots req,
             available_bike_slots = aq_total_bike_slots req, booked_bike_slots = 0,
             area_createdAt = Some now, area_updatedAt = None\<rparr>],
        register_login := register_login (set_owner_area req now s),
        slots := slots s @
          assign_ids (Suc (next_oid s))
            (new_slots (next_oid s) ''car'' (aq_total_car_slots req) @
             new_slots (next_oid s) ''bike'' (aq_total_bike_slots req)),
        next_oid := Suc (next_oid s) +
          (nat (aq_total_car_slots req) + nat (aq_total_bike_slots req))\<rparr>)"
proof -
  from assms(2) have "new_slots (next_oid s) ''car'' (aq_total_car_slots req) @
      new_slots (next_oid s) ''bike'' (aq_total_bike_slots req) \<noteq> []"
    by (simp only: batch_empty_iff) auto
  with assms(1) show ?thesis
    by (simp add: create_or_resize_area_def Let_def insertMany_slots_batch set_owner_area_def)
qed

lemma area_create_rejected:
  assumes "findOne (\<lambda>a. name a = aq_parking_area_name req) (parking_areas s) = None"
    and "aq_total_car_slots req \<le> 0" "aq_total_bike_slots req \<le> 0"
  shows "create_or_resize_area req now s =
     (Inl ServerError,
      s\<lparr>parking_areas := parking_areas s @
           [\<lparr>area_oid = next_oid s, name = aq_parking_area_name req,
             location = aq_location req,
             total_car_slots = aq_total_car_slots req,
             available_car_slots = aq_total_car_slots req, booked_car_slots = 0,
             total_bike_slots = aq_total_bike_slots req,
             available_bike_slots = aq_total_bike_slots req, booked_bike_slots = 0,
             area_createdAt = Some now, area_updatedAt = None\<rparr>],
        register_login := register_login (set_owner_area req now s),
        next_oid := Suc (next_oid s)\<rparr>)"
  using assms
  by (simp add: create_or_resize_area_def Let_def set_owner_area_def new_slots_def)

lemma area_kept:
  assumes "findOne (\<lambda>a. name a = aq_parking_area_name req) (parking_areas s) = Some a"
    and "\<not> (aq_total_car_slots req \<noteq> total_car_slots a \<or>
            aq_total_bike_slots req \<noteq> total_bike_slots a)"
  shows "create_or_resize_area req now s =
     (Inr AreaUpdated,
      s\<lparr>parking_areas :=
           updateOne (\<lambda>a. name a = aq_parking_area_name req)
             (\<lambda>a. a\<lparr>location := aq_location req,
                     total_car_slots := aq_total_car_slots req,
                     total_bike_slots := aq_total_bike_slots req,
                     area_updatedAt := Some now\<rparr>)
             (parking_areas s),
        register_login := register_login (set_owner_area req now s)\<rparr>)"
  using assms
  by (simp add: create_or_resize_area_def Let_def set_owner_area_def)

lemma resize_changed:
  assumes "findOne (\<lambda>a. name a = aq_parking_area_name req) (parking_areas s) = Some a"
    and "aq_total_car_slots req \<noteq> total_car_slots a \<or>
         aq_total_bike_slots req \<noteq> total_bike_slots a"
    and "0 < aq_total_car_slots req \<or> 0 < aq_total_bike_slots req"
  shows "create_or_resize_area req now s =
    (Inr AreaUpdated,
     s\<lparr>parking_areas :=
         updateOne (\<lambda>x. area_oid x = area_oid a)
           (\<lambda>a. a\<lparr>available_car_slots := aq_total_car_slots req, booked_car_slots := 0,
                   available_bike_slots := aq_total_bike_slots req, booked_bike_slots := 0\<rparr>)
           (updateOne (\<lambda>a. name a = aq_parking_area_name req)
              (\<lambda>a. a\<lparr>location := aq_location req,
                      total_car_slots := aq_total_car_slots req,
                      total_bike_slots := aq_total_bike_slots req,
                      area_updatedAt := Some now\<rparr>)
              (parking_areas s)),
       register_login := register_login (set_owner_area req now s),
       slots := filter (\<lambda>x. parking_id x \<noteq> area_oid a) (slots s) @
                assign_ids (next_oid s) (new_slots (area_oid a) ''car'' (aq_total_car_slots req)) @
                assign_ids (next_oid s + nat (aq_total_car_slots req))
                  (new_slots (area_oid a) ''bike'' (aq_total_bike_slots req)),
       next_oid := next_oid s + (nat (aq_total_car_slots req) + nat (aq_total_bike_slots req))\<rparr>)"
proof -
  from assms(3) have "new_slots (area_oid a) ''car'' (aq_total_car_slots req) @
      new_slots (area_oid a) ''bike'' (aq_total_bike_slots req) \<noteq> []"
    by (simp only: batch_empty_iff) auto
  with assms(1,2) show ?thesis
    by (auto simp add: create_or_resize_area_def Let_def insertMany_slots_batch
        set_owner_area_def deleteMany_def assign_ids_append)
qed

lemma resize_rejected:
  assumes "findOne (\<lambda>a. name a = aq_parking_area_name req) (parking_areas s) = Some a"
    and "aq_total_car_slots req \<noteq> total_car_slots a \<or>
         aq_total_bike_slots req \<noteq> total_bike_slots a"
    and "aq_total_car_slots req \<le> 0" "aq_total_bike_slots req \<le> 0"
  shows "create_or_resize_area req now s =
    (Inl ServerError,
     s\<lparr>parking_areas :=
         updateOne (\<lambda>a. name a = aq_parking_area_name req)
           (\<lambda>a. a\<lparr>location := aq_location req,
                   total_car_slots := aq_total_car_slots req,
                   total_bike_slots := aq_total_bike_slots req,
                   area_updatedAt := Some now\<rparr>)
           (parking_areas s),
       register_login := register_login (set_owner_area req now s),
       slots := filter (\<lambda>x. parking_id x \<noteq> area_oid a) (slots s)\<rparr>)"
  using assms
  by (auto simp add: create_or_resize_area_def Let_def set_owner_area_def deleteMany_def
      new_slots_def)

text \<open>
  The answer is the status-500 one exactly when the batch is empty and the handler
  reaches \<open>insertMany\<close>.
\<close>

lemma create_or_resize_consistent:
  assumes d: "distinct (map area_oid (parking_areas s))"
    and c: "list_all counters_consistent (parking_areas s)"
    and ok: "fst (create_or_resize_area req now s) \<noteq> Inl ServerError"
  shows "list_all counters_consistent (parking_areas (snd (create_or_resize_area req now s)))"
proof (cases "findOne (\<lambda>a. name a = aq_parking_area_name req) (parking_areas s)")
  case None
  show ?thesis
  proof (cases "0 < aq_total_car_slots req \<or> 0 < aq_total_bike_slots req")
    case True
    with c show ?thesis
      by (simp add: area_created [OF None True] counters_consistent_def)
  next
    case False
    with ok area_create_rejected [OF None, of now] show ?thesis by simp
  qed
next
  case (Some a)
  then have f: "find (\<lambda>a. name a = aq_parking_area_name req) (parking_areas s) = Some a"
    by (simp add: findOne_def)
  show ?thesis
  proof (cases "aq_total_car_slots req \<noteq> total_car_slots a \<or>
                aq_total_bike_slots req \<noteq> total_bike_slots a")
    case True
    have ne: "0 < aq_total_car_slots req \<or> 0 < aq_total_bike_slots req"
    proof (rule ccontr)
      assume "\<not> ?thesis"
      with ok resize_rejected [OF Some True, of now] show False by simp
    qed
    have "list_all counters_consistent
            (updateOne (\<lambda>x. area_oid x = area_oid a)
               (\<lambda>a. a\<lparr>available_car_slots := aq_total_car_slots req,
                       booked_car_slots := 0,
                       available_bike_slots := aq_total_bike_slots req,
                       booked_bike_slots := 0\<rparr>)
               (updateOne (\<lambda>a. name a = aq_parking_area_name req)
                  (\<lambda>a. a\<lparr>location := aq_location req,
                          total_car_slots := aq_total_car_slots req,
                          total_bike_slots := aq_total_bike_slots req,
                          area_updatedAt := Some now\<rparr>)
                  (parking_areas s)))"
      by (subst updateOne_by_key_after [OF d f])
         (auto intro!: list_all_updateOne [OF c] simp: counters_consistent_def)
    then show ?thesis
      by (simp add: resize_changed [OF Some True ne])
  next
    case False
    have "list_all counters_consistent
            (updateOne (\<lambda>a. name a = aq_parking_area_name req)
                  (\<lambda>a. a\<lparr>location := aq_location req,
                          total_car_slots := aq_total_car_slots req,
                          total_bike_slots := aq_total_bike_slots req,
                          area_updatedAt := Some now\<rparr>)
                  (parking_areas s))"
    proof -
      have "a \<in> set (parking_areas s)" using f by (auto simp: find_Some_iff)
      with c have "counters_consistent a" by (simp add: list_all_iff)
      with False show ?thesis
        by (subst updateOne_found [OF f])
           (auto intro!: list_all_updateOne [OF c] simp: counters_consistent_def)
    qed
    then show ?thesis
      by (simp add: area_kept [OF Some False])
  qed
qed

text \<open>
  In a store whose area ids are unique, the three operations keep
  \<open>available + booked = total\<close> for the car and the bike counters of every area, as long
  as the handler for \<open>/api/owner/parking_areas\<close> does not answer from its \<open>catch\<close> block.
\<close>

lemma counters_kept:
  assumes "distinct (map area_oid (parking_areas s))"
    and "list_all counters_consistent (parking_areas s)"
    and "\<And>req. c = CreateOrResizeArea req \<Longrightarrow>
           fst (create_or_resize_area req now s) \<noteq> Inl ServerError"
  shows "list_all counters_consistent (parking_areas (run_command c now s))"
  using assms
  by (cases c) (simp_all add: create_or_resize_consistent reserve_consistent complete_consistent)

text \<open>
  C1 fails on the handler for \<open>/api/owner/parking_areas\<close>. \<open>Mall A\<close> has the totals
  \<open>(2, 1)\<close> and the counters \<open>(2, 0, 1, 0)\<close>, which agree. A request that resizes it to
  \<open>(0, 0)\<close> writes the totals, deletes the slots and hands \<open>insertMany\<close> an empty batch;
  the driver rejects it, the handler answers 500 from its \<open>catch\<close> block and the reset of
  the counters is not reached. The store is left with the totals \<open>(0, 0)\<close> and the
  counters \<open>(2, 0, 1, 0)\<close>: \<open>available + booked = total\<close> no longer holds.
\<close>

theorem resize_to_zero_breaks_counters:
  "distinct (map area_oid (parking_areas mall_state)) \<and>
   list_all counters_consistent (parking_areas mall_state) \<and>
   fst (create_or_resize_area mall_close 20 mall_state) = Inl ServerError \<and>
   map totals (parking_areas (run_command (CreateOrResizeArea mall_close) 20 mall_state))
     = [(0, 0)] \<and>
   map counters (parking_areas (run_command (CreateOrResizeArea mall_close) 20 mall_state))
     = [(2, 0, 1, 0)] \<and>
   slots (run_command (CreateOrResizeArea mall_close) 20 mall_state) = [] \<and>
   \<not> list_all counters_consistent
        (parking_areas (run_command (CreateOrResizeArea mall_close) 20 mall_state))"
proof -
  have f: "findOne (\<lambda>a. name a = aq_parking_area_name mall_close) (parking_areas mall_state)
             = Some mall_area"
    by (simp add: findOne_def mall_close_def mall_req_def mall_state_def mall_area_def)
  have ch: "aq_total_car_slots mall_close \<noteq> total_car_slots mall_area \<or>
            aq_total_bike_slots mall_close \<noteq> total_bike_slots mall_area"
    by (simp add: mall_close_def mall_area_def)
  have z: "aq_total_car_slots mall_close \<le> 0" "aq_total_bike_slots mall_close \<le> 0"
    by (simp_all add: mall_close_def)
  show ?thesis
    by (simp add: resize_rejected [OF f ch z])
       (simp add: mall_state_def mall_area_def mall_slots_def mall_close_def mall_req_def
          counters_consistent_def totals_def counters_def)
qed

section \<open>Requests that are turned down\<close>

text \<open>
  C6. When no slot has the id of the request, or the slot with that id has a status other
  than available, the booking handler answers \<open>Slot not available\<close> and leaves the whole
  store as it was: no booking, slot or area changes.
\<close>

theorem reserve_unavailable_unchanged:
  assumes "lookup_slot (rq_slot_id req) s = None \<or>
           (\<exists>sl. lookup_slot (rq_slot_id req) s = Some sl \<and> status sl \<noteq> Available)"
  shows "reserve_slot req now s = (Inl SlotUnavailable, s)"
  using assms by (auto simp: reserve_slot_def lookup_slot_def)

theorem reserve_unavailable_unchanged_witness:
  "map_option status (lookup_slot (rq_slot_id bike_req) bike_booked_state) = Some Booked \<and>
   reserve_slot bike_req 12 bike_booked_state = (Inl SlotUnavailable, bike_booked_state)"
proof -
  have l: "lookup_slot (rq_slot_id bike_req) bike_booked_state
             = Some ((mall_slots ! 2)\<lparr>status := Booked, current_booking_id := Some 4\<rparr>)"
    by (simp add: lookup_slot_def findOne_def bike_booked_state_eq bike_req_def mall_slots_def)
  then have h: "lookup_slot (rq_slot_id bike_req) bike_booked_state = None \<or>
           (\<exists>sl. lookup_slot (rq_slot_id bike_req) bike_booked_state = Some sl \<and>
                 status sl \<noteq> Available)"
    by simp
  from reserve_unavailable_unchanged [OF h, of 12] l show ?thesis
    by simp
qed

text \<open>
  C7. When no booking with status active has the slot id of the request, the completion
  handler answers \<open>No active booking found\<close> and leaves the whole store as it was.
\<close>

theorem complete_no_active_unchanged:
  assumes "\<forall>b\<in>set (bookings s). \<not> (b_slot_id b = cq_slot_id req \<and> b_status b = Active)"
  shows "complete_booking req now s = (Inl NoActiveBooking, s)"
proof -
  have none: "find (is_active_on (cq_slot_id req)) (bookings s) = None"
    using assms by (simp add: find_None_iff is_active_on_def)
  then show ?thesis
    by (simp add: complete_booking_def matchedCount_def updateOne_no_match)
qed

theorem complete_no_active_unchanged_witness:
  "map b_slot_id (bookings car_completed_state) = [cq_slot_id car_done] \<and>
   map b_status (bookings car_completed_state) = [Completed] \<and>
   complete_booking car_done 11 car_completed_state
     = (Inl NoActiveBooking, car_completed_state)"
proof -
  have b: "map b_slot_id (bookings car_completed_state) = [cq_slot_id car_done]"
    "map b_status (bookings car_completed_state) = [Completed]"
    by (simp_all add: car_completed_state_def reserve_slot_def complete_booking_def
        car_req_def car_done_def mall_state_def mall_slots_def findOne_def matchedCount_def
        is_active_on_def new_booking_def Let_def)
  have "list_all (\<lambda>b. b_status b = Completed) (bookings car_completed_state)"
    using b(2) by (simp add: list_all_iff) (metis list.set_map list.simps(15) empty_set
        singletonD imageI)
  then have h: "\<forall>b\<in>set (bookings car_completed_state).
             \<not> (b_slot_id b = cq_slot_id car_done \<and> b_status b = Active)"
    by (simp add: list_all_iff)
  from complete_no_active_unchanged [OF h, of 11] b show ?thesis
    by (intro conjI)
qed

section \<open>Which counters a request moves\<close>

lemma two_area_state_created:
  "create_or_resize_area plaza_req 1 mall_state = (Inr (AreaCreated 4), two_area_state)"
  by (simp add: create_or_resize_area_def plaza_req_def mall_state_def two_area_state_def
      mall_area_def plaza_area_def findOne_def set_owner_area_def insertMany_slots_def
      new_slots_def new_slot_def Let_def upt_rec)

text \<open>
  C10. A booking request that names an available slot succeeds whatever area id and
  vehicle type it carries: nothing compares them with the slot's own \<open>parking_id\<close> and
  \<open>vehicle_type\<close>. The answer is the new booking id and the slot's number; one active
  booking with the fields of the request is added; the slot is marked booked with a
  reference to that booking and no other slot changes. The counters that move are those
  of the area with the request's \<open>parking_id\<close>: \<open>available_car\<close> down by one and
  \<open>booked_car\<close> up by one when the request's type lower-cases to \<open>car\<close>, and otherwise
  \<open>available_bike\<close> down by one and \<open>booked_bike\<close> up by one. Every other area reads as
  before.
\<close>

theorem reserve_ignores_area_and_type:
  assumes "lookup_slot (rq_slot_id req) s = Some sl" and "status sl = Available"
  shows "fst (reserve_slot req now s) = Inr (next_oid s, slot_number sl) \<and>
         bookings (snd (reserve_slot req now s)) = bookings s @
           [\<lparr>booking_oid = next_oid s,
             b_parking_id = rq_parking_id req,
             b_slot_id = rq_slot_id req,
             b_vehicle_type = toLowerCase (rq_vehicle_type req),
             number_plate = rq_number_plate req,
             phone = rq_phone req,
             entry_time = rq_entry_time req,
             b_status = Active,
             b_createdAt = now,
             exit_time = None, amount = None, b_updatedAt = None\<rparr>] \<and>
         lookup_slot (rq_slot_id req) (snd (reserve_slot req now s)) =
           Some (sl\<lparr>status := Booked, current_booking_id := Some (next_oid s)\<rparr>) \<and>
         (\<forall>i. i \<noteq> rq_slot_id req \<longrightarrow>
            lookup_slot i (snd (reserve_slot req now s)) = lookup_slot i s) \<and>
         lookup_area (rq_parking_id req) (snd (reserve_slot req now s)) =
           map_option
             (\<lambda>a. if toLowerCase (rq_vehicle_type req) = ''car''
                  then a\<lparr>available_car_slots := available_car_slots a - 1,
                         booked_car_slots := booked_car_slots a + 1\<rparr>
                  else a\<lparr>available_bike_slots := available_bike_slots a - 1,
                         booked_bike_slots := booked_bike_slots a + 1\<rparr>)
             (lookup_area (rq_parking_id req) s) \<and>
         (\<forall>i. i \<noteq> rq_parking_id req \<longrightarrow>
            lookup_area i (snd (reserve_slot req now s)) = lookup_area i s)"
proof -
  from assms have f: "find (\<lambda>x. slot_oid x = rq_slot_id req) (slots s) = Some sl"
    by (simp add: lookup_slot_def findOne_def)
  let ?s' = "snd (reserve_slot req now s)"
  let ?upd = "if toLowerCase (rq_vehicle_type req) = ''car''
              then inc_car (- 1) 1 else inc_bike (- 1) 1"
  have s': "bookings ?s' = bookings s @ [new_booking req now (next_oid s)]"
    "slots ?s' = updateOne (\<lambda>x. slot_oid x = rq_slot_id req)
                   (\<lambda>x. x\<lparr>status := Booked, current_booking_id := Some (next_oid s)\<rparr>)
                   (slots s)"
    "parking_areas ?s' = updateOne (\<lambda>a. area_oid a = rq_parking_id req) ?upd (parking_areas s)"
    "fst (reserve_slot req now s) = Inr (next_oid s, slot_number sl)"
    using f assms(2) by (simp_all add: reserve_slot_def findOne_def Let_def)
  have slot: "lookup_slot (rq_slot_id req) ?s' =
           Some (sl\<lparr>status := Booked, current_booking_id := Some (next_oid s)\<rparr>)"
    by (simp add: lookup_slot_def findOne_def s' find_updateOne_same f)
  have slots: "\<forall>i. i \<noteq> rq_slot_id req \<longrightarrow> lookup_slot i ?s' = lookup_slot i s"
    by (auto simp add: lookup_slot_def findOne_def s' intro!: find_updateOne_other)
  have area: "lookup_area (rq_parking_id req) ?s' =
           map_option
             (\<lambda>a. if toLowerCase (rq_vehicle_type req) = ''car''
                  then a\<lparr>available_car_slots := available_car_slots a - 1,
                         booked_car_slots := booked_car_slots a + 1\<rparr>
                  else a\<lparr>available_bike_slots := available_bike_slots a - 1,
                         booked_bike_slots := booked_bike_slots a + 1\<rparr>)
             (lookup_area (rq_parking_id req) s)"
    by (cases "find (\<lambda>a. area_oid a = rq_parking_id req) (parking_areas s)")
       (simp_all add: lookup_area_def findOne_def s' find_updateOne_same inc_car_def
          inc_bike_def)
  have areas: "\<forall>i. i \<noteq> rq_parking_id req \<longrightarrow> lookup_area i ?s' = lookup_area i s"
    by (auto simp add: lookup_area_def findOne_def s' intro!: find_updateOne_other)
  from s'(4) s'(1) slot slots area areas show ?thesis
    by (simp add: new_booking_def)
qed

theorem reserve_ignores_area_and_type_witness:
  "lookup_slot (rq_slot_id stray_req) two_area_state = Some (mall_slots ! 0) \<and>
   parking_id (mall_slots ! 0) = 0 \<and> vehicle_type (mall_slots ! 0) = ''car'' \<and>
   rq_parking_id stray_req = 4 \<and> rq_vehicle_type stray_req = ''bike'' \<and>
   fst (reserve_slot stray_req 7 two_area_state) = Inr (6, 1) \<and>
   map b_status (bookings (snd (reserve_slot stray_req 7 two_area_state))) = [Active] \<and>
   map booking_oid (bookings (snd (reserve_slot stray_req 7 two_area_state))) = [6] \<and>
   map_option status (lookup_slot 1 (snd (reserve_slot stray_req 7 two_area_state)))
     = Some Booked \<and>
   map_option current_booking_id (lookup_slot 1 (snd (reserve_slot stray_req 7 two_area_state)))
     = Some (Some 6) \<and>
   map_option counters (lookup_area 4 (snd (reserve_slot stray_req 7 two_area_state)))
     = Some (1, 0, - 1, 1) \<and>
   map_option counters (lookup_area 0 (snd (reserve_slot stray_req 7 two_area_state)))
     = Some (2, 0, 1, 0) \<and>
   lookup_slot (rq_slot_id stray_car_req) two_area_state = Some (mall_slots ! 2) \<and>
   parking_id (mall_slots ! 2) = 0 \<and> vehicle_type (mall_slots ! 2) = ''bike'' \<and>
   rq_parking_id stray_car_req = 4 \<and> rq_vehicle_type stray_car_req = ''CAR'' \<and>
   fst (reserve_slot stray_car_req 7 two_area_state) = Inr (6, 1) \<and>
   map_option counters (lookup_area 4 (snd (reserve_slot stray_car_req 7 two_area_state)))
     = Some (0, 1, 0, 0) \<and>
   map_option counters (lookup_area 0 (snd (reserve_slot stray_car_req 7 two_area_state)))
     = Some (2, 0, 1, 0)"
proof -
  have f: "lookup_slot (rq_slot_id stray_req) two_area_state = Some (mall_slots ! 0)"
    "lookup_slot (rq_slot_id stray_car_req) two_area_state = Some (mall_slots ! 2)"
    by (simp_all add: lookup_slot_def findOne_def stray_req_def stray_car_req_def car_req_def
        bike_req_def two_area_state_def mall_slots_def)
  have a: "status (mall_slots ! 0) = Available" "status (mall_slots ! 2) = Available"
    by (simp_all add: mall_slots_def)
  have sl: "parking_id (mall_slots ! 0) = 0" "vehicle_type (mall_slots ! 0) = ''car''"
    "slot_number (mall_slots ! 0) = 1"
    "parking_id (mall_slots ! 2) = 0" "vehicle_type (mall_slots ! 2) = ''bike''"
    "slot_number (mall_slots ! 2) = 1"
    by (simp_all add: mall_slots_def)
  have p: "rq_parking_id stray_req = 4" "rq_vehicle_type stray_req = ''bike''"
    "rq_slot_id stray_req = 1"
    "rq_parking_id stray_car_req = 4" "rq_vehicle_type stray_car_req = ''CAR''"
    by (simp_all add: stray_req_def stray_car_req_def car_req_def)
  have n: "next_oid two_area_state = 6" "bookings two_area_state = []"
    by (simp_all add: two_area_state_def)
  have l: "lookup_area 4 two_area_state = Some plaza_area"
    "lookup_area 0 two_area_state = Some mall_area"
    by (simp_all add: lookup_area_def findOne_def two_area_state_def mall_area_def
        plaza_area_def)
  have c: "counters (plaza_area\<lparr>available_bike_slots := available_bike_slots plaza_area - 1,
                       booked_bike_slots := booked_bike_slots plaza_area + 1\<rparr>) = (1, 0, - 1, 1)"
    "counters (plaza_area\<lparr>available_car_slots := available_car_slots plaza_area - 1,
                       booked_car_slots := booked_car_slots plaza_area + 1\<rparr>) = (0, 1, 0, 0)"
    "counters mall_area = (2, 0, 1, 0)"
    by (simp_all add: counters_def plaza_area_def mall_area_def)
  note t = reserve_ignores_area_and_type [OF f(1) a(1), of 7]
  note u = reserve_ignores_area_and_type [OF f(2) a(2), of 7]
  from t have r: "fst (reserve_slot stray_req 7 two_area_state) = Inr (6, 1)"
    by (simp add: n sl)
  from t have b: "map b_status (bookings (snd (reserve_slot stray_req 7 two_area_state)))
                    = [Active]"
    "map booking_oid (bookings (snd (reserve_slot stray_req 7 two_area_state))) = [6]"
    by (simp_all add: n)
  from t have k: "lookup_slot 1 (snd (reserve_slot stray_req 7 two_area_state))
                    = Some ((mall_slots ! 0)\<lparr>status := Booked, current_booking_id := Some 6\<rparr>)"
    by (simp add: n p)
  from t have x: "map_option counters (lookup_area 4 (snd (reserve_slot stray_req 7 two_area_state)))
                    = Some (1, 0, - 1, 1)"
    by (simp add: p l c)
  from t have "0 \<noteq> rq_parking_id stray_req \<longrightarrow>
      lookup_area 0 (snd (reserve_slot stray_req 7 two_area_state)) = lookup_area 0 two_area_state"
    by blast
  then have y: "map_option counters (lookup_area 0 (snd (reserve_slot stray_req 7 two_area_state)))
                  = Some (2, 0, 1, 0)"
    by (simp add: p l c)
  from u have r': "fst (reserve_slot stray_car_req 7 two_area_state) = Inr (6, 1)"
    by (simp add: n sl)
  from u have x': "map_option counters
                     (lookup_area 4 (snd (reserve_slot stray_car_req 7 two_area_state)))
                    = Some (0, 1, 0, 0)"
    by (simp add: p l c)
  from u have "0 \<noteq> rq_parking_id stray_car_req \<longrightarrow>
      lookup_area 0 (snd (reserve_slot stray_car_req 7 two_area_state))
        = lookup_area 0 two_area_state"
    by blast
  then have y': "map_option counters
                   (lookup_area 0 (snd (reserve_slot stray_car_req 7 two_area_state)))
                  = Some (2, 0, 1, 0)"
    by (simp add: p l c)
  from k have k1: "map_option status
                     (lookup_slot 1 (snd (reserve_slot stray_req 7 two_area_state))) = Some Booked"
    and k2: "map_option current_booking_id
               (lookup_slot 1 (snd (reserve_slot stray_req 7 two_area_state))) = Some (Some 6)"
    by simp_all
  from f(1) sl(1,2) p(1,2) r b k1 k2 x y f(2) sl(4,5) p(4,5) r' x' y' show ?thesis
    by (intro conjI)
qed

text \<open>
  C3, as the handler has it. A completion request for a slot with an active booking
  succeeds, and the counters that move (\<open>available\<close> up by one, \<open>booked\<close> down by one) are
  those of the area with the request's \<open>parking_id\<close>, chosen by the request's
  \<open>vehicle_type\<close>: the car counters when it lower-cases to \<open>car\<close>, the bike counters
  otherwise. The type stored in the booking or the slot is not read; every other area
  reads as before.
\<close>

theorem complete_uses_request_type:
  assumes "\<exists>b\<in>set (bookings s). b_slot_id b = cq_slot_id req \<and> b_status b = Active"
  shows "fst (complete_booking req now s) = Inr () \<and>
         lookup_area (cq_parking_id req) (snd (complete_booking req now s)) =
           map_option
             (if toLowerCase (cq_vehicle_type req) = ''car''
              then inc_car 1 (- 1) else inc_bike 1 (- 1))
             (lookup_area (cq_parking_id req) s) \<and>
         (\<forall>i. i \<noteq> cq_parking_id req \<longrightarrow>
            lookup_area i (snd (complete_booking req now s)) = lookup_area i s)"
proof -
  have "find (is_active_on (cq_slot_id req)) (bookings s) \<noteq> None"
    using assms by (auto simp: find_None_iff is_active_on_def)
  then show ?thesis
    by (auto simp add: complete_booking_def matchedCount_def lookup_area_def findOne_def Let_def
      find_updateOne_same find_updateOne_other split: option.splits)
qed

theorem complete_uses_request_type_witness:
  "b_slot_id (new_booking bike_req 7 4) = cq_slot_id bike_done_as_car \<and>
   b_vehicle_type (new_booking bike_req 7 4) = ''bike'' \<and>
   fst (complete_booking bike_done_as_car 9 bike_booked_state) = Inr () \<and>
   map_option counters
     (lookup_area 0 (snd (complete_booking bike_done_as_car 9 bike_booked_state)))
     = Some (3, - 1, 0, 1)"
proof -
  have h: "\<exists>b\<in>set (bookings bike_booked_state).
             b_slot_id b = cq_slot_id bike_done_as_car \<and> b_status b = Active"
    by (simp add: bike_booked_state_eq new_booking_def bike_req_def bike_done_as_car_def)
  have l: "lookup_area 0 bike_booked_state
             = Some (mall_area\<lparr>available_bike_slots := 0, booked_bike_slots := 1\<rparr>)"
    by (simp add: lookup_area_def findOne_def bike_booked_state_eq mall_area_def)
  from complete_uses_request_type [OF h, of 9] show ?thesis
    by (simp add: l bike_done_as_car_def new_booking_def bike_req_def counters_def
        inc_car_def mall_area_def)
qed

text \<open>
  The bike booking of slot 3 is completed by a request that says \<open>car\<close>: the bike
  counters, those of the stored type, stay at \<open>(0, 1)\<close>, and the car counters move from
  \<open>(2, 0)\<close> to \<open>(3, -1)\<close>.
\<close>

theorem complete_by_stored_type_counterexample:
  "map b_vehicle_type (filter (is_active_on 3) (bookings bike_booked_state)) = [''bike''] \<and>
   fst (complete_booking bike_done_as_car 9 bike_booked_state) = Inr () \<and>
   map counters (parking_areas bike_booked_state) = [(2, 0, 0, 1)] \<and>
   map counters (parking_areas (snd (complete_booking bike_done_as_car 9 bike_booked_state)))
     = [(3, - 1, 0, 1)]"
  by (simp add: bike_booked_state_eq complete_booking_def bike_done_as_car_def
      matchedCount_def is_active_on_def new_booking_def bike_req_def counters_def mall_area_def
      mall_slots_def Let_def inc_car_def)

section \<open>Reserving, then completing\<close>

lemma reserve_success:
  assumes "reserve_slot req now s = (Inr r, s1)"
  shows "\<exists>sl. find (\<lambda>x. slot_oid x = rq_slot_id req) (slots s) = Some sl \<and>
           status sl = Available \<and>
           s1 = s\<lparr>bookings := bookings s @ [new_booking req now (next_oid s)],
                  next_oid := Suc (next_oid s),
                  slots := updateOne (\<lambda>x. slot_oid x = rq_slot_id req)
                         (\<lambda>x. x\<lparr>status := Booked, current_booking_id := Some (next_oid s)\<rparr>)
                         (slots s),
                  parking_areas := updateOne (\<lambda>a. area_oid a = rq_parking_id req)
                    (if toLowerCase (rq_vehicle_type req) = ''car''
                     then inc_car (- 1) 1 else inc_bike (- 1) 1) (parking_areas s)\<rparr>"
  using assms
  by (auto simp: reserve_slot_def findOne_def Let_def split: option.splits if_splits)

lemma complete_success:
  assumes "complete_booking req now s = (Inr u, s2)"
  shows "slots s2 = updateOne (\<lambda>x. slot_oid x = cq_slot_id req)
                        (\<lambda>x. x\<lparr>status := Available, current_booking_id := None\<rparr>) (slots s) \<and>
         parking_areas s2 = updateOne (\<lambda>a. area_oid a = cq_parking_id req)
            (if toLowerCase (cq_vehicle_type req) = ''car''
                  then inc_car 1 (- 1) else inc_bike 1 (- 1)) (parking_areas s)"
  using assms
  by (auto simp: complete_booking_def Let_def split: if_splits)

text \<open>
  C4, as the handlers have it. After a successful booking of a slot and a successful
  completion for the same slot id, the slot is available again and has no booking
  reference. When the completion request carries the area id of the booking request and a
  vehicle type that chooses the same counters (both lower-case to \<open>car\<close>, or neither
  does), every area, the owning one among them, has the counters it had before the
  booking.
\<close>

theorem reserve_complete_round_trip:
  assumes r: "reserve_slot req now s = (Inr r, s1)"
    and c: "complete_booking creq now' s1 = (Inr u, s2)"
    and sid: "cq_slot_id creq = rq_slot_id req"
  shows "(\<exists>sl. lookup_slot (rq_slot_id req) s2 = Some sl \<and> status sl = Available \<and>
            current_booking_id sl = None) \<and>
         (cq_parking_id creq = rq_parking_id req \<and>
          (toLowerCase (cq_vehicle_type creq) = ''car'') =
          (toLowerCase (rq_vehicle_type req) = ''car'') \<longrightarrow>
          parking_areas s2 = parking_areas s)"
proof -
  from reserve_success [OF r] obtain sl where
    f: "find (\<lambda>x. slot_oid x = rq_slot_id req) (slots s) = Some sl" and
    s1: "slots s1 = updateOne (\<lambda>x. slot_oid x = rq_slot_id req)
                         (\<lambda>x. x\<lparr>status := Booked, current_booking_id := Some (next_oid s)\<rparr>)
                         (slots s)"
        "parking_areas s1 = updateOne (\<lambda>a. area_oid a = rq_parking_id req)
                    (if toLowerCase (rq_vehicle_type req) = ''car''
                     then inc_car (- 1) 1 else inc_bike (- 1) 1) (parking_areas s)"
    by auto
  note s2 = complete_success [OF c]
  have slot: "\<exists>sl. lookup_slot (rq_slot_id req) s2 = Some sl \<and> status sl = Available \<and>
            current_booking_id sl = None"
    using f by (simp add: lookup_slot_def findOne_def s2 s1 sid find_updateOne_same)
  have areas: "parking_areas s2 = parking_areas s"
    if "cq_parking_id creq = rq_parking_id req"
      "(toLowerCase (cq_vehicle_type creq) = ''car'') = (toLowerCase (rq_vehicle_type req) = ''car'')"
    using that by (simp add: s2 s1 updateOne_undo)
  from slot areas show ?thesis by blast
qed

text \<open>
  Car slot 1 is booked as a car and completed by a request that says \<open>bike\<close>: both calls
  succeed, and the counters of \<open>Mall A\<close> go from \<open>(2, 0, 1, 0)\<close> to \<open>(1, 1, 2, -1)\<close>.
\<close>

theorem round_trip_counterexample:
  "fst (reserve_slot car_req 7 mall_state) = Inr (4, 1) \<and>
   fst (complete_booking car_done_as_bike 9 (snd (reserve_slot car_req 7 mall_state))) = Inr () \<and>
   map counters (parking_areas mall_state) = [(2, 0, 1, 0)] \<and>
   map counters (parking_areas
     (snd (complete_booking car_done_as_bike 9 (snd (reserve_slot car_req 7 mall_state)))))
     = [(1, 1, 2, - 1)]"
  by (simp add: reserve_slot_def complete_booking_def car_req_def car_done_as_bike_def
      mall_state_def mall_slots_def mall_area_def findOne_def matchedCount_def is_active_on_def
      new_booking_def counters_def Let_def inc_car_def inc_bike_def)

theorem reserve_complete_round_trip_witness:
  "reserve_slot car_req 7 mall_state = (Inr (4, 1), snd (reserve_slot car_req 7 mall_state)) \<and>
   fst (complete_booking car_done 9 (snd (reserve_slot car_req 7 mall_state))) = Inr () \<and>
   (\<exists>sl. lookup_slot 1 (snd (complete_booking car_done 9 (snd (reserve_slot car_req 7 mall_state))))
            = Some sl \<and> status sl = Available \<and> current_booking_id sl = None) \<and>
   parking_areas (snd (complete_booking car_done 9 (snd (reserve_slot car_req 7 mall_state))))
     = parking_areas mall_state"
proof -
  have "fst (reserve_slot car_req 7 mall_state) = Inr (4, 1)"
    by (simp add: reserve_slot_def car_req_def mall_state_def mall_slots_def findOne_def Let_def)
  then have r: "reserve_slot car_req 7 mall_state
                  = (Inr (4, 1), snd (reserve_slot car_req 7 mall_state))"
    by (simp add: prod_eq_iff)
  have fc: "fst (complete_booking car_done 9 (snd (reserve_slot car_req 7 mall_state))) = Inr ()"
    by (simp add: reserve_slot_def complete_booking_def car_req_def car_done_def
        mall_state_def mall_slots_def findOne_def matchedCount_def is_active_on_def
        new_booking_def Let_def)
  then have c: "complete_booking car_done 9 (snd (reserve_slot car_req 7 mall_state))
                  = (Inr (), snd (complete_booking car_done 9
                                    (snd (reserve_slot car_req 7 mall_state))))"
    by (simp add: prod_eq_iff)
  have v: "cq_slot_id car_done = rq_slot_id car_req" "rq_slot_id car_req = 1"
    "cq_parking_id car_done = rq_parking_id car_req"
    "(toLowerCase (cq_vehicle_type car_done) = ''car'')
       = (toLowerCase (rq_vehicle_type car_req) = ''car'')"
    by (simp_all add: car_done_def car_req_def)
  from reserve_complete_round_trip [OF r c v(1)] r fc v show ?thesis
    by simp
qed

section \<open>Resizing an area\<close>

lemma slot_oid_assign_ids_new:
  "map slot_oid (assign_ids n (map (new_slot p vt) js)) = [n..<n + length js]"
  by (induction js arbitrary: n) (auto simp: new_slot_def upt_rec)

lemma slot_number_assign_ids_new:
  "map slot_number (assign_ids n (map (new_slot p vt) js)) = map Suc js"
  by (induction js arbitrary: n) (auto simp: new_slot_def)

lemma new_slots_fields:
  "x \<in> set (assign_ids n (new_slots p vt k)) \<Longrightarrow>
   parking_id x = p \<and> vehicle_type x = vt \<and> status x = Available \<and>
   current_booking_id x = None \<and> n \<le> slot_oid x"
proof -
  have "x \<in> set (assign_ids n (map (new_slot p vt) js)) \<Longrightarrow>
   parking_id x = p \<and> vehicle_type x = vt \<and> status x = Available \<and>
   current_booking_id x = None \<and> n \<le> slot_oid x" for js
    by (induction js arbitrary: n) (fastforce simp: new_slot_def)+
  then show "x \<in> set (assign_ids n (new_slots p vt k)) \<Longrightarrow>
   parking_id x = p \<and> vehicle_type x = vt \<and> status x = Available \<and>
   current_booking_id x = None \<and> n \<le> slot_oid x"
    by (simp add: new_slots_def)
qed

lemma slot_number_new_slots:
  "map slot_number (assign_ids n (new_slots p vt k)) = [1..<Suc (nat k)]"
  by (simp add: new_slots_def slot_number_assign_ids_new map_Suc_upt)

lemma filter_all: "(\<And>x. x \<in> set xs \<Longrightarrow> P x) \<Longrightarrow> filter P xs = xs"
  by (induction xs) auto

lemma filter_none: "(\<And>x. x \<in> set xs \<Longrightarrow> \<not> P x) \<Longrightarrow> filter P xs = []"
  by (induction xs) auto

lemma filter_new_slots_same [simp]:
  "filter (\<lambda>x. parking_id x = p \<and> vehicle_type x = vt) (assign_ids n (new_slots p vt k))
     = assign_ids n (new_slots p vt k)"
  by (rule filter_True) (auto dest: new_slots_fields)

lemma filter_new_slots_other [simp]:
  "vt \<noteq> vt' \<Longrightarrow>
   filter (\<lambda>x. parking_id x = p \<and> vehicle_type x = vt') (assign_ids n (new_slots p vt k)) = []"
  by (rule filter_False) (auto dest: new_slots_fields)

lemma filter_new_slots_area [simp]:
  "filter (\<lambda>x. parking_id x = p) (assign_ids n (new_slots p vt k))
     = assign_ids n (new_slots p vt k)"
  by (rule filter_True) (auto dest: new_slots_fields)

lemma filter_new_slots_not_area [simp]:
  "filter (\<lambda>x. parking_id x \<noteq> p) (assign_ids n (new_slots p vt k)) = []"
  by (rule filter_False) (auto dest: new_slots_fields)

lemma filter_area_removed [simp]:
  "filter (\<lambda>x. parking_id x = p \<and> Q x) (filter (\<lambda>x. parking_id x \<noteq> p) xs) = []"
  "filter (\<lambda>x. parking_id x = p) (filter (\<lambda>x. parking_id x \<noteq> p) xs) = []"
  by (induction xs) auto

text \<open>The slots a resize leaves, when the batch of new slots is not empty.\<close>

lemma slots_of_resized:
  assumes "findOne (\<lambda>a. name a = aq_parking_area_name req) (parking_areas s) = Some a"
    and "aq_total_car_slots req \<noteq> total_car_slots a \<or>
         aq_total_bike_slots req \<noteq> total_bike_slots a"
    and "0 < aq_total_car_slots req \<or> 0 < aq_total_bike_slots req"
  shows "slots_of (area_oid a) ''car'' (snd (create_or_resize_area req now s)) =
           assign_ids (next_oid s) (new_slots (area_oid a) ''car'' (aq_total_car_slots req))"
    and "slots_of (area_oid a) ''bike'' (snd (create_or_resize_area req now s)) =
           assign_ids (next_oid s + nat (aq_total_car_slots req))
                  (new_slots (area_oid a) ''bike'' (aq_total_bike_slots req))"
    and "filter (\<lambda>x. parking_id x = area_oid a) (slots (snd (create_or_resize_area req now s))) =
           assign_ids (next_oid s) (new_slots (area_oid a) ''car'' (aq_total_car_slots req)) @
           assign_ids (next_oid s + nat (aq_total_car_slots req))
                  (new_slots (area_oid a) ''bike'' (aq_total_bike_slots req))"
  by (simp_all add: resize_changed [OF assms] slots_of_def)

text \<open>The slots of the other areas stay, whether the batch is empty or not.\<close>

lemma other_slots_kept:
  assumes f: "findOne (\<lambda>a. name a = aq_parking_area_name req) (parking_areas s) = Some a"
    and ch: "aq_total_car_slots req \<noteq> total_car_slots a \<or>
         aq_total_bike_slots req \<noteq> total_bike_slots a"
  shows "filter (\<lambda>x. parking_id x \<noteq> area_oid a) (slots (snd (create_or_resize_area req now s))) =
           filter (\<lambda>x. parking_id x \<noteq> area_oid a) (slots s)"
proof (cases "0 < aq_total_car_slots req \<or> 0 < aq_total_bike_slots req")
  case True
  show ?thesis by (simp add: resize_changed [OF f ch True])
next
  case False
  then have "aq_total_car_slots req \<le> 0" "aq_total_bike_slots req \<le> 0" by auto
  then show ?thesis by (simp add: resize_rejected [OF f ch])
qed

lemma area_after_resize:
  assumes f: "findOne (\<lambda>a. name a = aq_parking_area_name req) (parking_areas s) = Some a"
    and ch: "aq_total_car_slots req \<noteq> total_car_slots a \<or>
         aq_total_bike_slots req \<noteq> total_bike_slots a"
    and ne: "0 < aq_total_car_slots req \<or> 0 < aq_total_bike_slots req"
  shows "\<exists>a'. lookup_area (area_oid a) (snd (create_or_resize_area req now s)) = Some a' \<and>
           counters a' = (aq_total_car_slots req, 0, aq_total_bike_slots req, 0)"
proof -
  let ?f = "\<lambda>a. a\<lparr>location := aq_location req,
                      total_car_slots := aq_total_car_slots req,
                      total_bike_slots := aq_total_bike_slots req,
                      area_updatedAt := Some now\<rparr>"
  let ?xs = "updateOne (\<lambda>a. name a = aq_parking_area_name req) ?f (parking_areas s)"
  from f have "a \<in> set (parking_areas s)"
    by (auto simp: findOne_def find_Some_iff)
  then have "area_oid a \<in> set (map area_oid (parking_areas s))" by auto
  also have "map area_oid (parking_areas s) = map area_oid ?xs"
    by (simp add: map_updateOne_key)
  finally obtain b where "b \<in> set ?xs" "area_oid b = area_oid a" by auto
  then have "find (\<lambda>x. area_oid x = area_oid a) ?xs \<noteq> None"
    by (auto simp: find_None_iff)
  then obtain b' where b': "find (\<lambda>x. area_oid x = area_oid a) ?xs = Some b'" by auto
  show ?thesis
    by (simp add: resize_changed [OF f ch ne] lookup_area_def findOne_def find_updateOne_same b'
        counters_def)
qed

text \<open>
  C5, as the handler has it. When an area with the requested name exists, the requested
  totals \<open>(C, B)\<close> differ from its totals for the car or for the bike slots, and at least
  one of \<open>C\<close>, \<open>B\<close> is positive, the handler answers that the area is updated and leaves
  it with exactly \<open>max C 0\<close> car slots numbered from 1 and exactly \<open>max B 0\<close> bike slots
  numbered from 1 (\<open>C\<close> and \<open>B\<close> of them when neither is negative) and no other slot, each
  of them available and without a booking reference, and with the counters
  \<open>available_car = C\<close>, \<open>booked_car = 0\<close>, \<open>available_bike = B\<close>, \<open>booked_bike = 0\<close>.
\<close>

theorem resize_resets:
  assumes f: "findOne (\<lambda>a. name a = aq_parking_area_name req) (parking_areas s) = Some a"
    and ch: "aq_total_car_slots req \<noteq> total_car_slots a \<or>
             aq_total_bike_slots req \<noteq> total_bike_slots a"
    and ne: "0 < aq_total_car_slots req \<or> 0 < aq_total_bike_slots req"
  shows "let s' = snd (create_or_resize_area req now s);
             cars = slots_of (area_oid a) ''car'' s';
             bikes = slots_of (area_oid a) ''bike'' s'
         in fst (create_or_resize_area req now s) = Inr AreaUpdated \<and>
            int (length cars) = max (aq_total_car_slots req) 0 \<and>
            map slot_number cars = [1..<Suc (length cars)] \<and>
            int (length bikes) = max (aq_total_bike_slots req) 0 \<and>
            map slot_number bikes = [1..<Suc (length bikes)] \<and>
            filter (\<lambda>x. parking_id x = area_oid a) (slots s') = cars @ bikes \<and>
            list_all (\<lambda>x. status x = Available \<and> current_booking_id x = None) (cars @ bikes) \<and>
            map_option counters (lookup_area (area_oid a) s')
              = Some (aq_total_car_slots req, 0, aq_total_bike_slots req, 0)"
proof -
  note sl = slots_of_resized [OF f ch ne, of now]
  have free: "list_all (\<lambda>x. status x = Available \<and> current_booking_id x = None)
                (assign_ids n (new_slots p vt k))" for n p vt k
    by (auto simp: list_all_iff dest: new_slots_fields)
  have ok: "fst (create_or_resize_area req now s) = Inr AreaUpdated"
    by (simp add: resize_changed [OF f ch ne])
  from area_after_resize [OF f ch ne, of now] have
    "map_option counters (lookup_area (area_oid a) (snd (create_or_resize_area req now s)))
       = Some (aq_total_car_slots req, 0, aq_total_bike_slots req, 0)"
    by auto
  with ok show ?thesis
    unfolding Let_def sl
    by (simp add: slot_number_new_slots free max_def)
qed

theorem resize_resets_witness:
  "findOne (\<lambda>a. name a = aq_parking_area_name mall_resize) (parking_areas bike_booked_state)
     = Some bike_booked_area \<and>
   total_car_slots bike_booked_area = 2 \<and> aq_total_car_slots mall_resize = 1 \<and>
   aq_total_bike_slots mall_resize = 2 \<and>
   fst (create_or_resize_area mall_resize 20 bike_booked_state) = Inr AreaUpdated \<and>
   map slot_number
     (slots_of 0 ''car'' (snd (create_or_resize_area mall_resize 20 bike_booked_state))) = [1] \<and>
   map slot_number
     (slots_of 0 ''bike'' (snd (create_or_resize_area mall_resize 20 bike_booked_state)))
     = [1, 2] \<and>
   map_option counters
     (lookup_area 0 (snd (create_or_resize_area mall_resize 20 bike_booked_state)))
     = Some (1, 0, 2, 0)"
proof -
  have f: "findOne (\<lambda>a. name a = aq_parking_area_name mall_resize)
             (parking_areas bike_booked_state) = Some bike_booked_area"
    by (simp add: findOne_def mall_resize_def mall_req_def bike_booked_state_eq
        bike_booked_area_def mall_area_def)
  have v: "total_car_slots bike_booked_area = 2" "aq_total_car_slots mall_resize = 1"
    "aq_total_bike_slots mall_resize = 2" "area_oid bike_booked_area = 0"
    by (simp_all add: bike_booked_area_def mall_area_def mall_resize_def)
  have ch: "aq_total_car_slots mall_resize \<noteq> total_car_slots bike_booked_area \<or>
            aq_total_bike_slots mall_resize \<noteq> total_bike_slots bike_booked_area"
    by (simp add: v)
  have ne: "0 < aq_total_car_slots mall_resize \<or> 0 < aq_total_bike_slots mall_resize"
    by (simp add: v)
  note t = resize_resets [OF f ch ne, of 20, unfolded Let_def v]
  from t have l: "length (slots_of 0 ''car''
                     (snd (create_or_resize_area mall_resize 20 bike_booked_state))) = 1"
    "length (slots_of 0 ''bike''
                     (snd (create_or_resize_area mall_resize 20 bike_booked_state))) = 2"
    by simp_all
  from t f v show ?thesis
    by (simp add: l upt_rec)
qed

text \<open>
  C5 as it was stated asks for exactly \<open>C\<close> car slots also when \<open>C\<close> is negative. A
  resize of \<open>Mall A\<close> to \<open>(-1, 1)\<close> is answered as an update: no car slot is made, and
  \<open>available_car\<close> is set to \<open>-1\<close>.
\<close>

theorem resize_negative_counterexample:
  "aq_total_car_slots mall_negative = - 1 \<and>
   fst (create_or_resize_area mall_negative 20 mall_state) = Inr AreaUpdated \<and>
   slots_of 0 ''car'' (snd (create_or_resize_area mall_negative 20 mall_state)) = [] \<and>
   map slot_number
     (slots_of 0 ''bike'' (snd (create_or_resize_area mall_negative 20 mall_state))) = [1] \<and>
   map counters (parking_areas (snd (create_or_resize_area mall_negative 20 mall_state)))
     = [(- 1, 0, 1, 0)]"
proof -
  have f: "findOne (\<lambda>a. name a = aq_parking_area_name mall_negative) (parking_areas mall_state)
             = Some mall_area"
    by (simp add: findOne_def mall_negative_def mall_req_def mall_state_def mall_area_def)
  have ch: "aq_total_car_slots mall_negative \<noteq> total_car_slots mall_area \<or>
            aq_total_bike_slots mall_negative \<noteq> total_bike_slots mall_area"
    by (simp add: mall_negative_def mall_area_def)
  have ne: "0 < aq_total_car_slots mall_negative \<or> 0 < aq_total_bike_slots mall_negative"
    by (simp add: mall_negative_def)
  show ?thesis
    by (simp add: resize_changed [OF f ch ne] slots_of_def)
       (simp add: mall_negative_def mall_req_def mall_state_def mall_area_def mall_slots_def
          new_slots_def new_slot_def counters_def)
qed

lemma old_slot_gone:
  assumes f: "findOne (\<lambda>a. name a = aq_parking_area_name req) (parking_areas s) = Some a"
    and ch: "aq_total_car_slots req \<noteq> total_car_slots a \<or>
             aq_total_bike_slots req \<noteq> total_bike_slots a"
    and wf: "wf_state s"
    and sl: "sl \<in> set (slots s)" "parking_id sl = area_oid a"
    and i: "slot_oid sl = i"
  shows "lookup_slot i (snd (create_or_resize_area req now s)) = None"
proof -
  from wf have d: "distinct (map slot_oid (slots s))"
    and fresh: "\<forall>x\<in>set (slots s). slot_oid x < next_oid s"
    by (simp_all add: wf_state_def list_all_iff)
  have old: "slot_oid x \<noteq> slot_oid sl"
    if "x \<in> set (slots s)" "parking_id x \<noteq> area_oid a" for x
  proof
    assume "slot_oid x = slot_oid sl"
    with d that(1) sl(1) have "x = sl"
      by (auto simp: distinct_map dest: inj_onD)
    with that(2) sl(2) show False by simp
  qed
  have new: "slot_oid x \<noteq> slot_oid sl"
    if "x \<in> set (assign_ids n (new_slots p vt k))" "next_oid s \<le> n" for x n p vt k
    using new_slots_fields [OF that(1)] that(2) fresh sl(1) by fastforce
  show ?thesis
  proof (cases "0 < aq_total_car_slots req \<or> 0 < aq_total_bike_slots req")
    case True
    show ?thesis
      unfolding i [symmetric]
      by (auto simp add: resize_changed [OF f ch True] lookup_slot_def findOne_def
          find_None_iff dest: old new)
  next
    case False
    then have z: "aq_total_car_slots req \<le> 0" "aq_total_bike_slots req \<le> 0" by auto
    show ?thesis
      unfolding i [symmetric]
      by (auto simp add: resize_rejected [OF f ch z] lookup_slot_def findOne_def
          find_None_iff dest: old)
  qed
qed

lemma bookings_create_or_resize [simp]:
  "bookings (snd (create_or_resize_area req now s)) = bookings s"
  by (simp add: create_or_resize_area_def Let_def insertMany_slots_def set_owner_area_def
      split: option.splits list.splits)

text \<open>
  C9. The handler never writes to the bookings: after a resize that changes a total the
  collection of bookings is the one from before, so every booking that was active is
  still there and still active. The slots of the other areas are the ones from before.
  The slots of the resized area are deleted and made anew under new ids: the slot id
  stored in an active booking on one of them names no slot any more.
\<close>

theorem resize_keeps_bookings:
  assumes f: "findOne (\<lambda>a. name a = aq_parking_area_name req) (parking_areas s) = Some a"
    and ch: "aq_total_car_slots req \<noteq> total_car_slots a \<or>
             aq_total_bike_slots req \<noteq> total_bike_slots a"
    and wf: "wf_state s"
  shows "bookings (snd (create_or_resize_area req now s)) = bookings s \<and>
         filter (\<lambda>x. parking_id x \<noteq> area_oid a) (slots (snd (create_or_resize_area req now s)))
           = filter (\<lambda>x. parking_id x \<noteq> area_oid a) (slots s) \<and>
         (\<forall>b\<in>set (bookings s). b_status b = Active \<longrightarrow>
            (\<exists>sl\<in>set (slots s). slot_oid sl = b_slot_id b \<and> parking_id sl = area_oid a) \<longrightarrow>
            b \<in> set (bookings (snd (create_or_resize_area req now s))) \<and>
            lookup_slot (b_slot_id b) (snd (create_or_resize_area req now s)) = None)"
  using old_slot_gone [OF f ch wf, of _ _ now] other_slots_kept [OF f ch, of now]
  by auto

theorem resize_keeps_bookings_witness:
  "wf_state bike_booked_state \<and>
   bookings bike_booked_state = [new_booking bike_req 7 4] \<and>
   b_status (new_booking bike_req 7 4) = Active \<and>
   b_slot_id (new_booking bike_req 7 4) = 3 \<and>
   map_option parking_id (lookup_slot 3 bike_booked_state) = Some 0 \<and>
   bookings (snd (create_or_resize_area mall_resize 20 bike_booked_state))
     = [new_booking bike_req 7 4] \<and>
   lookup_slot 3 (snd (create_or_resize_area mall_resize 20 bike_booked_state)) = None"
proof -
  have f: "findOne (\<lambda>a. name a = aq_parking_area_name mall_resize)
             (parking_areas bike_booked_state) = Some bike_booked_area"
    by (simp add: findOne_def mall_resize_def mall_req_def bike_booked_state_eq
        bike_booked_area_def mall_area_def)
  have ch: "aq_total_car_slots mall_resize \<noteq> total_car_slots bike_booked_area \<or>
            aq_total_bike_slots mall_resize \<noteq> total_bike_slots bike_booked_area"
    by (simp add: bike_booked_area_def mall_area_def mall_resize_def)
  have wf: "wf_state bike_booked_state"
    by (simp add: wf_state_def bike_booked_state_eq mall_area_def mall_slots_def
        new_booking_def)
  have b: "bookings bike_booked_state = [new_booking bike_req 7 4]"
    "b_status (new_booking bike_req 7 4) = Active"
    "b_slot_id (new_booking bike_req 7 4) = 3"
    by (simp_all add: bike_booked_state_eq new_booking_def bike_req_def)
  have l: "map_option parking_id (lookup_slot 3 bike_booked_state) = Some 0"
    by (simp add: lookup_slot_def findOne_def bike_booked_state_eq mall_slots_def)
  have sl: "\<exists>sl\<in>set (slots bike_booked_state).
              slot_oid sl = b_slot_id (new_booking bike_req 7 4) \<and>
              parking_id sl = area_oid bike_booked_area"
    by (simp add: bike_booked_state_eq mall_slots_def b bike_booked_area_def mall_area_def)
  note t = resize_keeps_bookings [OF f ch wf, of 20]
  from t have k: "bookings (snd (create_or_resize_area mall_resize 20 bike_booked_state))
                    = bookings bike_booked_state"
    by blast
  from t b sl have g: "lookup_slot (b_slot_id (new_booking bike_req 7 4))
                        (snd (create_or_resize_area mall_resize 20 bike_booked_state)) = None"
    by simp
  from wf b l k g show ?thesis by simp
qed

section \<open>The bookings of a user\<close>

lemma populate_truncate [simp]: "booking.truncate (populate s b) = b"
  by (simp add: populate_def booking.truncate_def booking.extend_def Let_def)

lemma populate_fields [simp]:
  "entry_time (populate s b) = entry_time b"
  "b_parking_id (populate s b) = b_parking_id b"
  "b_slot_id (populate s b) = b_slot_id b"
  "pb_location (populate s b) =
     (case lookup_area (b_parking_id b) s of Some a \<Rightarrow> name a | None \<Rightarrow> ''Unknown Location'')"
  "pb_slot_number (populate s b) =
     (case lookup_slot (b_slot_id b) s of Some x \<Rightarrow> SlotNumber (slot_number x)
      | None \<Rightarrow> SlotText ''Unknown Slot'')"
  by (simp_all add: populate_def booking.extend_def populated_booking.fields_def Let_def
      lookup_area_def lookup_slot_def)

text \<open>
  C8. For every phone number the handler answers with that user's bookings, each of them
  once and with all its stored fields as they are in the store, ordered by \<open>entry_time\<close>
  from the newest to the oldest. Each carries the name of the area its \<open>parking_id\<close>
  names and the number of the slot its \<open>slot_id\<close> names; when no such area or slot is in
  the store, it carries \<open>Unknown Location\<close> or \<open>Unknown Slot\<close>.
\<close>

theorem list_user_bookings_newest_first:
  "sorted_wrt (\<lambda>x y. entry_time y \<le> entry_time x) (list_user_bookings ph s) \<and>
   mset (map booking.truncate (list_user_bookings ph s))
     = mset (filter (\<lambda>b. phone b = ph) (bookings s)) \<and>
   (\<forall>p\<in>set (list_user_bookings ph s).
      pb_location p =
        (case lookup_area (b_parking_id p) s of Some a \<Rightarrow> name a
         | None \<Rightarrow> ''Unknown Location'') \<and>
      pb_slot_number p =
        (case lookup_slot (b_slot_id p) s of Some x \<Rightarrow> SlotNumber (slot_number x)
         | None \<Rightarrow> SlotText ''Unknown Slot''))"
proof -
  let ?ys = "sort_key (\<lambda>b. - entry_time b) (filter (\<lambda>b. phone b = ph) (bookings s))"
  have "sorted (map (\<lambda>b. - entry_time b) ?ys)"
    by (rule sorted_sort_key)
  then have 1: "sorted_wrt (\<lambda>x y. entry_time y \<le> entry_time x) (list_user_bookings ph s)"
    by (simp add: list_user_bookings_def sorted_wrt_map)
  have 2: "mset (map booking.truncate (list_user_bookings ph s))
     = mset (filter (\<lambda>b. phone b = ph) (bookings s))"
    by (simp add: list_user_bookings_def comp_def)
  have 3: "\<forall>p\<in>set (list_user_bookings ph s).
      pb_location p =
        (case lookup_area (b_parking_id p) s of Some a \<Rightarrow> name a
         | None \<Rightarrow> ''Unknown Location'') \<and>
      pb_slot_number p =
        (case lookup_slot (b_slot_id p) s of Some x \<Rightarrow> SlotNumber (slot_number x)
         | None \<Rightarrow> SlotText ''Unknown Slot'')"
    by (auto simp: list_user_bookings_def)
  from 1 2 3 show ?thesis by blast
qed


lemma after_first: "snd (reserve_slot car_req 7 mall_state) =
     \<lparr>parking_areas = [mall_area\<lparr>available_car_slots := 1, booked_car_slots := 1\<rparr>],
      slots = [(mall_slots ! 0)\<lparr>status := Booked, current_booking_id := Some 4\<rparr>,
               mall_slots ! 1, mall_slots ! 2],
      bookings = [new_booking car_req 7 4], register_login = [], next_oid = 5\<rparr>"
  by (simp add: reserve_slot_def car_req_def mall_state_def mall_slots_def
      mall_area_def findOne_def Let_def inc_car_def)

lemma after_resize:
  "snd (create_or_resize_area mall_resize 20 (snd (reserve_slot car_req 7 mall_state))) =
     \<lparr>parking_areas =
        [mall_area\<lparr>total_car_slots := 1, total_bike_slots := 2, available_car_slots := 1,
           available_bike_slots := 2, area_updatedAt := Some 20\<rparr>],
      slots = [new_slot 0 ''car'' 0 5, new_slot 0 ''bike'' 0 6, new_slot 0 ''bike'' 1 7],
      bookings = [new_booking car_req 7 4], register_login = [], next_oid = 8\<rparr>"
  unfolding after_first
  by (simp add: create_or_resize_area_def mall_resize_def mall_req_def mall_area_def
      mall_slots_def findOne_def set_owner_area_def insertMany_slots_def deleteMany_def
      new_slots_def Let_def upt_rec)

lemma history_state_eq:
  "history_state =
     \<lparr>parking_areas =
        [mall_area\<lparr>total_car_slots := 1, total_bike_slots := 2, available_car_slots := 0,
           booked_car_slots := 1, available_bike_slots := 2, area_updatedAt := Some 20\<rparr>],
      slots = [(new_slot 0 ''car'' 0 5)\<lparr>status := Booked, current_booking_id := Some 8\<rparr>,
               new_slot 0 ''bike'' 0 6, new_slot 0 ''bike'' 1 7],
      bookings = [new_booking car_req 7 4, new_booking later_req 30 8],
      register_login = [], next_oid = 8 + 1\<rparr>"
  unfolding history_state_def after_resize
  by (simp add: reserve_slot_def later_req_def car_req_def mall_area_def new_slot_def
      findOne_def Let_def inc_car_def)

lemma history_state_bookings:
  "bookings history_state = [new_booking car_req 7 4, new_booking later_req 30 8]"
  by (simp add: history_state_eq)

lemma history_state_lookups:
  "lookup_slot 1 history_state = None"
  "map_option slot_number (lookup_slot 5 history_state) = Some 1"
  "map_option name (lookup_area 0 history_state) = Some ''Mall A''"
  by (simp_all add: history_state_eq lookup_slot_def lookup_area_def findOne_def new_slot_def
      mall_area_def)

theorem list_user_bookings_newest_first_witness:
  "map entry_time (list_user_bookings ''5550001'' history_state) = [3000, 1000] \<and>
   map booking.truncate (list_user_bookings ''5550001'' history_state)
     = [new_booking later_req 30 8, new_booking car_req 7 4] \<and>
   sorted_wrt (\<lambda>x y. entry_time y \<le> entry_time x)
     (list_user_bookings ''5550001'' history_state) \<and>
   map pb_location (list_user_bookings ''5550001'' history_state) = [''Mall A'', ''Mall A''] \<and>
   map pb_slot_number (list_user_bookings ''5550001'' history_state)
     = [SlotNumber 1, SlotText ''Unknown Slot'']"
proof -
  have l: "list_user_bookings ''5550001'' history_state
             = [populate history_state (new_booking later_req 30 8),
                populate history_state (new_booking car_req 7 4)]"
    by (simp add: list_user_bookings_def history_state_bookings new_booking_def later_req_def
        car_req_def)
  have b: "b_slot_id (new_booking later_req 30 8) = 5" "b_slot_id (new_booking car_req 7 4) = 1"
    "b_parking_id (new_booking later_req 30 8) = 0" "b_parking_id (new_booking car_req 7 4) = 0"
    "entry_time (new_booking later_req 30 8) = 3000" "entry_time (new_booking car_req 7 4) = 1000"
    by (simp_all add: new_booking_def later_req_def car_req_def)
  note t = list_user_bookings_newest_first [of "''5550001''" history_state]
  from t have s: "sorted_wrt (\<lambda>x y. entry_time y \<le> entry_time x)
     (list_user_bookings ''5550001'' history_state)"
    by blast
  from t have e: "\<forall>p\<in>set (list_user_bookings ''5550001'' history_state).
      pb_location p =
        (case lookup_area (b_parking_id p) history_state of Some a \<Rightarrow> name a
         | None \<Rightarrow> ''Unknown Location'') \<and>
      pb_slot_number p =
        (case lookup_slot (b_slot_id p) history_state of Some x \<Rightarrow> SlotNumber (slot_number x)
         | None \<Rightarrow> SlotText ''Unknown Slot'')"
    by blast
  have x: "map pb_location (list_user_bookings ''5550001'' history_state)
             = [''Mall A'', ''Mall A'']"
    "map pb_slot_number (list_user_bookings ''5550001'' history_state)
     = [SlotNumber 1, SlotText ''Unknown Slot'']"
    using e history_state_lookups
    by (auto simp add: l b split: option.splits)
  from s x show ?thesis
    by (simp add: l b)
qed

section \<open>Two requests for one slot\<close>

text \<open>
  Run alone, the four store calls of a booking request are the handler.
\<close>

lemma reserve_steps_alone:
  "run_schedule [0, 0, 0, 0] [(req, now, AtFindOne)] s =
     ([(req, now, Responded (fst (reserve_slot req now s)))], snd (reserve_slot req now s))"
  by (simp add: reserve_slot_def Let_def split: option.splits)

text \<open>
  Once a booking of a slot has succeeded, a later request for that slot is turned down:
  requests served one after another cannot book a slot twice.
\<close>

lemma reserve_again_unavailable:
  assumes "reserve_slot req now s = (Inr r, s1)" and "rq_slot_id req' = rq_slot_id req"
  shows "reserve_slot req' now' s1 = (Inl SlotUnavailable, s1)"
proof -
  from assms(1) obtain sl where
    f: "find (\<lambda>x. slot_oid x = rq_slot_id req) (slots s) = Some sl" and
    s1: "slots s1 = updateOne (\<lambda>x. slot_oid x = rq_slot_id req)
                         (\<lambda>x. x\<lparr>status := Booked, current_booking_id := Some (next_oid s)\<rparr>)
                         (slots s)"
    by (auto simp: reserve_slot_def findOne_def Let_def split: option.splits if_splits)
  show ?thesis
    by (simp add: reserve_slot_def findOne_def s1 assms(2) find_updateOne_same f)
qed

text \<open>
  C2 fails on the handler. The handler reads the slot with \<open>findOne\<close> and writes it two
  store calls later with an \<open>updateOne\<close> that does not test the status. Two requests for
  the available car slot 1 of \<open>Mall A\<close>, scheduled so that both reads come before the
  first write, both answer with a booking id; \<open>booked_car\<close> goes from 0 to 2,
  \<open>available_car\<close> from 2 to 0, and two active bookings name the slot.
\<close>

theorem concurrent_reserve_double_booking:
  "lookup_slot 1 mall_state = Some (mall_slots ! 0) \<and> status (mall_slots ! 0) = Available \<and>
   responses (fst (run_schedule racing_schedule both_in_flight mall_state))
     = [Responded (Inr (4, 1)), Responded (Inr (5, 1))] \<and>
   map counters (parking_areas mall_state) = [(2, 0, 1, 0)] \<and>
   map counters (parking_areas (snd (run_schedule racing_schedule both_in_flight mall_state)))
     = [(0, 2, 1, 0)] \<and>
   map booking_oid
     (filter (is_active_on 1)
        (bookings (snd (run_schedule racing_schedule both_in_flight mall_state)))) = [4, 5]"
  by (simp add: racing_schedule_def both_in_flight_def rival_req_def car_req_def mall_state_def
      mall_slots_def mall_area_def responses_def counters_def lookup_slot_def findOne_def
      new_booking_def is_active_on_def inc_car_def Let_def)

section \<open>Unique and new ids\<close>

text \<open>
  The three operations keep the ids of every collection unique and below \<open>next_oid\<close>, and
  the empty store has this property: it holds in every store the handlers can reach.
\<close>

lemma wf_state_ids:
  "wf_state s \<longleftrightarrow>
     ids_ok (next_oid s) (map area_oid (parking_areas s)) \<and>
     ids_ok (next_oid s) (map slot_oid (slots s)) \<and>
     ids_ok (next_oid s) (map booking_oid (bookings s))"
  by (auto simp: wf_state_def ids_ok_def list_all_iff)

lemma ids_ok_mono: "ids_ok n is \<Longrightarrow> n \<le> m \<Longrightarrow> ids_ok m is"
  by (auto simp: ids_ok_def)

lemma ids_ok_append_upt: "ids_ok n is \<Longrightarrow> ids_ok (n + k) (is @ [n..<n + k])"
  by (auto simp: ids_ok_def)

lemma ids_ok_snoc: "ids_ok n is \<Longrightarrow> ids_ok (Suc n) (is @ [n])"
  by (auto simp: ids_ok_def)

lemma ids_ok_filter: "ids_ok n (map k xs) \<Longrightarrow> ids_ok n (map k (filter P xs))"
  by (auto simp: ids_ok_def distinct_map_filter)

lemma slot_oid_new_slots:
  "map slot_oid (assign_ids n (new_slots p vt k)) = [n..<n + nat k]"
  by (simp add: new_slots_def slot_oid_assign_ids_new)

lemma slot_oid_new_batch:
  "map slot_oid (assign_ids n (new_slots p vt k @ new_slots p' vt' k'))
     = [n..<n + (nat k + nat k')]"
proof -
  have "[n..<n + (nat k + nat k')] = [n..<n + nat k] @ [n + nat k..<n + nat k + nat k']"
    using upt_add_eq_append [of n "n + nat k" "nat k'"] by (simp add: add.assoc)
  then show ?thesis
    by (simp add: assign_ids_append slot_oid_new_slots add.assoc)
qed

lemma wf_reserve: "wf_state s \<Longrightarrow> wf_state (snd (reserve_slot req now s))"
  unfolding wf_state_ids
  by (auto simp: reserve_slot_def Let_def map_updateOne_key new_booking_def
      split: option.splits intro: ids_ok_mono ids_ok_snoc)

lemma wf_complete: "wf_state s \<Longrightarrow> wf_state (snd (complete_booking req now s))"
  unfolding wf_state_ids
  by (auto simp: complete_booking_def Let_def map_updateOne_key)

lemma ids_ok_append_from:
  "ids_ok n is \<Longrightarrow> n \<le> a \<Longrightarrow> ids_ok (a + k) (is @ [a..<a + k])"
  by (auto simp: ids_ok_def)

lemma ids_ok_filter_key:
  "ids_ok n (map k xs) \<Longrightarrow> ids_ok n (map k (filter P xs))"
  by (auto simp: ids_ok_def distinct_map_filter)

lemma created_ids:
  assumes n: "findOne (\<lambda>a. name a = aq_parking_area_name req) (parking_areas s) = None"
  shows "map area_oid (parking_areas (snd (create_or_resize_area req now s)))
           = map area_oid (parking_areas s) @ [next_oid s]"
    and "map slot_oid (slots (snd (create_or_resize_area req now s)))
           = map slot_oid (slots s) @
             [Suc (next_oid s)..<Suc (next_oid s) +
                (nat (aq_total_car_slots req) + nat (aq_total_bike_slots req))]"
    and "next_oid (snd (create_or_resize_area req now s))
           = Suc (next_oid s) + (nat (aq_total_car_slots req) + nat (aq_total_bike_slots req))"
proof (atomize (full), cases "0 < aq_total_car_slots req \<or> 0 < aq_total_bike_slots req")
  case True
  show "map area_oid (parking_areas (snd (create_or_resize_area req now s)))
           = map area_oid (parking_areas s) @ [next_oid s] \<and>
        map slot_oid (slots (snd (create_or_resize_area req now s)))
           = map slot_oid (slots s) @
             [Suc (next_oid s)..<Suc (next_oid s) +
                (nat (aq_total_car_slots req) + nat (aq_total_bike_slots req))] \<and>
        next_oid (snd (create_or_resize_area req now s))
           = Suc (next_oid s) + (nat (aq_total_car_slots req) + nat (aq_total_bike_slots req))"
    by (simp add: area_created [OF n True] slot_oid_new_batch)
next
  case False
  then have z: "aq_total_car_slots req \<le> 0" "aq_total_bike_slots req \<le> 0" by auto
  then show "map area_oid (parking_areas (snd (create_or_resize_area req now s)))
           = map area_oid (parking_areas s) @ [next_oid s] \<and>
        map slot_oid (slots (snd (create_or_resize_area req now s)))
           = map slot_oid (slots s) @
             [Suc (next_oid s)..<Suc (next_oid s) +
                (nat (aq_total_car_slots req) + nat (aq_total_bike_slots req))] \<and>
        next_oid (snd (create_or_resize_area req now s))
           = Suc (next_oid s) + (nat (aq_total_car_slots req) + nat (aq_total_bike_slots req))"
    by (simp add: area_create_rejected [OF n z])
qed

lemma resized_ids:
  assumes f: "findOne (\<lambda>a. name a = aq_parking_area_name req) (parking_areas s) = Some a"
    and ch: "aq_total_car_slots req \<noteq> total_car_slots a \<or>
         aq_total_bike_slots req \<noteq> total_bike_slots a"
  shows "map area_oid (parking_areas (snd (create_or_resize_area req now s)))
           = map area_oid (parking_areas s)"
    and "map slot_oid (slots (snd (create_or_resize_area req now s)))
           = map slot_oid (filter (\<lambda>x. parking_id x \<noteq> area_oid a) (slots s)) @
             [next_oid s..<next_oid s +
                (nat (aq_total_car_slots req) + nat (aq_total_bike_slots req))]"
    and "next_oid (snd (create_or_resize_area req now s))
           = next_oid s + (nat (aq_total_car_slots req) + nat (aq_total_bike_slots req))"
proof (atomize (full), cases "0 < aq_total_car_slots req \<or> 0 < aq_total_bike_slots req")
  case True
  have "assign_ids (next_oid s) (new_slots (area_oid a) ''car'' (aq_total_car_slots req)) @
        assign_ids (next_oid s + nat (aq_total_car_slots req))
          (new_slots (area_oid a) ''bike'' (aq_total_bike_slots req))
        = assign_ids (next_oid s)
            (new_slots (area_oid a) ''car'' (aq_total_car_slots req) @
             new_slots (area_oid a) ''bike'' (aq_total_bike_slots req))"
    by (simp add: assign_ids_append)
  then show "map area_oid (parking_areas (snd (create_or_resize_area req now s)))
           = map area_oid (parking_areas s) \<and>
        map slot_oid (slots (snd (create_or_resize_area req now s)))
           = map slot_oid (filter (\<lambda>x. parking_id x \<noteq> area_oid a) (slots s)) @
             [next_oid s..<next_oid s +
                (nat (aq_total_car_slots req) + nat (aq_total_bike_slots req))] \<and>
        next_oid (snd (create_or_resize_area req now s))
           = next_oid s + (nat (aq_total_car_slots req) + nat (aq_total_bike_slots req))"
    using slot_oid_new_batch [of "next_oid s" "area_oid a" "''car''" "aq_total_car_slots req"
        "area_oid a" "''bike''" "aq_total_bike_slots req"]
    by (simp add: resize_changed [OF f ch True] map_updateOne_key)
next
  case False
  then have z: "aq_total_car_slots req \<le> 0" "aq_total_bike_slots req \<le> 0" by auto
  then show "map area_oid (parking_areas (snd (create_or_resize_area req now s)))
           = map area_oid (parking_areas s) \<and>
        map slot_oid (slots (snd (create_or_resize_area req now s)))
           = map slot_oid (filter (\<lambda>x. parking_id x \<noteq> area_oid a) (slots s)) @
             [next_oid s..<next_oid s +
                (nat (aq_total_car_slots req) + nat (aq_total_bike_slots req))] \<and>
        next_oid (snd (create_or_resize_area req now s))
           = next_oid s + (nat (aq_total_car_slots req) + nat (aq_total_bike_slots req))"
    by (simp add: resize_rejected [OF f ch z] map_updateOne_key)
qed

lemma kept_ids:
  assumes "findOne (\<lambda>a. name a = aq_parking_area_name req) (parking_areas s) = Some a"
    and "\<not> (aq_total_car_slots req \<noteq> total_car_slots a \<or>
            aq_total_bike_slots req \<noteq> total_bike_slots a)"
  shows "map area_oid (parking_areas (snd (create_or_resize_area req now s)))
           = map area_oid (parking_areas s)"
    and "slots (snd (create_or_resize_area req now s)) = slots s"
    and "next_oid (snd (create_or_resize_area req now s)) = next_oid s"
  by (simp_all add: area_kept [OF assms] map_updateOne_key)

lemma wf_create_or_resize:
  assumes wf: "wf_state s"
  shows "wf_state (snd (create_or_resize_area req now s))"
proof -
  from wf have a: "ids_ok (next_oid s) (map area_oid (parking_areas s))"
    and sl: "ids_ok (next_oid s) (map slot_oid (slots s))"
    and b: "ids_ok (next_oid s) (map booking_oid (bookings s))"
    by (simp_all add: wf_state_ids)
  let ?m = "nat (aq_total_car_slots req) + nat (aq_total_bike_slots req)"
  show ?thesis
  proof (cases "findOne (\<lambda>a. name a = aq_parking_area_name req) (parking_areas s)")
    case None
    have "ids_ok (Suc (next_oid s) + ?m) (map area_oid (parking_areas s) @ [next_oid s])"
      by (rule ids_ok_mono [OF ids_ok_snoc [OF a]]) simp
    moreover have "ids_ok (Suc (next_oid s) + ?m)
       (map slot_oid (slots s) @ [Suc (next_oid s)..<Suc (next_oid s) + ?m])"
      by (rule ids_ok_append_from [OF sl]) simp
    moreover have "ids_ok (Suc (next_oid s) + ?m) (map booking_oid (bookings s))"
      by (rule ids_ok_mono [OF b]) simp
    ultimately show ?thesis
      unfolding wf_state_ids created_ids [OF None] bookings_create_or_resize
      by (intro conjI)
  next
    case (Some x)
    show ?thesis
    proof (cases "aq_total_car_slots req \<noteq> total_car_slots x \<or>
                  aq_total_bike_slots req \<noteq> total_bike_slots x")
      case True
      have "ids_ok (next_oid s + ?m) (map area_oid (parking_areas s))"
        by (rule ids_ok_mono [OF a]) simp
      moreover have "ids_ok (next_oid s + ?m)
         (map slot_oid (filter (\<lambda>y. parking_id y \<noteq> area_oid x) (slots s)) @
          [next_oid s..<next_oid s + ?m])"
        by (rule ids_ok_append_from [OF ids_ok_filter_key [OF sl]]) simp
      moreover have "ids_ok (next_oid s + ?m) (map booking_oid (bookings s))"
        by (rule ids_ok_mono [OF b]) simp
      ultimately show ?thesis
        unfolding wf_state_ids resized_ids [OF Some True] bookings_create_or_resize
        by (intro conjI)
    next
      case False
      from a sl b show ?thesis
        unfolding wf_state_ids kept_ids [OF Some False] bookings_create_or_resize
        by (intro conjI)
    qed
  qed
qed

lemma wf_run_command: "wf_state s \<Longrightarrow> wf_state (run_command c now s)"
  by (cases c) (simp_all add: wf_reserve wf_complete wf_create_or_resize)

lemma wf_empty_state: "wf_state empty_state"
  by (simp add: wf_state_def empty_state_def)

lemma wf_run_commands: "wf_state s \<Longrightarrow> wf_state (run_commands cs s)"
proof (induction cs arbitrary: s)
  case Nil
  then show ?case by simp
next
  case (Cons x cs)
  obtain c now where x: "x = (c, now)" by (cases x)
  from Cons.IH [OF wf_run_command [OF Cons.prems]] show ?case
    by (simp add: x)
qed

end
